theory Spec2Isabelle
  imports Complex_Main
begin

unbundle bit_operations_syntax

section \<open>Python values and exceptions\<close>

text \<open>
  Python integers are unbounded (\<open>int\<close>); Python floats are modelled by exact reals, so
  every equation about a cooked value below is the rounding-free reading of the float
  computation. Exceptions that end a function are the left summand of its result.
\<close>

datatype py_error = IndexError | TypeError | ValueError | UnicodeEncodeError

text \<open>\<open>xs[i]\<close>: an index from \<open>-len(xs)\<close> to \<open>-1\<close> counts from the end; any other index outside the list raises.\<close>

definition py_index :: "'a list \<Rightarrow> int \<Rightarrow> py_error + 'a" where
  "py_index xs i =
     (if 0 \<le> i \<and> i < int (length xs) then Inr (xs ! nat i)
      else if i < 0 \<and> - int (length xs) \<le> i then Inr (xs ! nat (int (length xs) + i))
      else Inl IndexError)"

text \<open>\<open>xs.index(v)\<close> for a value known to occur: the first position holding it.\<close>

fun index_of :: "int list \<Rightarrow> int \<Rightarrow> int" where
  "index_of [] v = 0"
| "index_of (x # xs) v = (if x = v then 0 else 1 + index_of xs v)"

section \<open>ti2c.py: class tempsensor\<close>

subsection \<open>Class-level tables\<close>

definition i2caddress :: "int list" where
  "i2caddress = [0x68, 0x69, 0x6a, 0x6b, 0x6c, 0x6d, 0x6e, 0x6f]"

text \<open>(bit resolution, sample rate, sample data mask, configuration byte)\<close>

definition mcp3421 :: "(int \<times> real \<times> int \<times> int) list" where
  "mcp3421 = [(12, 240, 0x7ff, 0x10), (14, 60, 0x1fff, 0x14),
              (16, 15, 0x7fff, 0x18), (18, 375 / 100, 0x1ffff, 0x1c)]"

definition slope_intercept :: "(real \<times> real) list" where
  "slope_intercept = [(6285027 / 100000000, 7064385 / 100000),
                      (1571257 / 100000000, 7064385 / 100000),
                      (3928142 / 1000000000, 7064385 / 100000),
                      (9820354 / 10000000000, 7064385 / 100000)]"

subsection \<open>Instances\<close>

record tempsensor =
  i2caddrind :: int
  address :: int
  mode :: int
  cfgbyte :: int
  status :: int
  slope :: real
  intercept :: real
  units :: int
  raw :: int
  cooked :: real

text \<open>
  What an instance sees before \<open>__init__\<close> has assigned anything: the class attributes
  \<open>mode = 3\<close> and \<open>i2caddrind = -1\<close>. The other fields do not exist yet in Python; they are
  0 here and \<open>__init__\<close> assigns each of them before it can be read.
\<close>

definition tempsensor_class :: tempsensor where
  "tempsensor_class =
     \<lparr>i2caddrind = -1, address = 0, mode = 3, cfgbyte = 0, status = 0,
      slope = 0, intercept = 0, units = 0, raw = 0, cooked = 0\<rparr>"

definition set_address :: "tempsensor \<Rightarrow> int \<Rightarrow> tempsensor" where
  "set_address s a =
     (if 0 \<le> a \<and> a < int (length i2caddress)
      then s\<lparr>i2caddrind := a, address := i2caddress ! nat a\<rparr>
      else if a \<in> set i2caddress
      then s\<lparr>i2caddrind := index_of i2caddress a,
             address := i2caddress ! nat (index_of i2caddress a)\<rparr>
      else s\<lparr>i2caddrind := -1, address := 0\<rparr>)"

text \<open>The test is on the attribute \<open>self.mode\<close>, not on the argument.\<close>

definition set_mode :: "tempsensor \<Rightarrow> int \<Rightarrow> tempsensor" where
  "set_mode s m =
     (if mode s < 0 then s\<lparr>mode := 0\<rparr>
      else if mode s > int (length mcp3421) - 1 then s\<lparr>mode := int (length mcp3421) - 1\<rparr>
      else s\<lparr>mode := m\<rparr>)"

definition set_slope :: "tempsensor \<Rightarrow> real \<Rightarrow> tempsensor" where
  "set_slope s v = s\<lparr>slope := v\<rparr>"

definition set_intercept :: "tempsensor \<Rightarrow> real \<Rightarrow> tempsensor" where
  "set_intercept s v = s\<lparr>intercept := v\<rparr>"

text \<open>\<open>tempsensor(address, mode, units)\<close>, that is \<open>__init__\<close> on a fresh instance.\<close>

definition tempsensor_init :: "int \<Rightarrow> int \<Rightarrow> int \<Rightarrow> py_error + tempsensor" where
  "tempsensor_init a m u =
     (let s1 = tempsensor_class\<lparr>i2caddrind := a\<rparr>;
          s2 = set_address s1 a;
          s3 = set_mode s2 m
      in case py_index mcp3421 (mode s3) of
           Inl e \<Rightarrow> Inl e
         | Inr (bits, rate, msk, cfg) \<Rightarrow>
             (case py_index slope_intercept m of
                Inl e \<Rightarrow> Inl e
              | Inr (sl, ic) \<Rightarrow>
                  Inr (s3\<lparr>cfgbyte := cfg, status := cfg, slope := sl, intercept := ic,
                          units := (if u < 0 then 0 else if u > 2 then 2 else u),
                          raw := 0, cooked := 0\<rparr>)))"

definition get_address :: "tempsensor \<Rightarrow> int" where
  "get_address s = address s"

definition get_resolution :: "tempsensor \<Rightarrow> py_error + int" where
  "get_resolution s =
     (case py_index mcp3421 (mode s) of Inl e \<Rightarrow> Inl e | Inr (bits, rate, msk, cfg) \<Rightarrow> Inr bits)"

definition get_samplemask :: "tempsensor \<Rightarrow> py_error + int" where
  "get_samplemask s =
     (case py_index mcp3421 (mode s) of Inl e \<Rightarrow> Inl e | Inr (bits, rate, msk, cfg) \<Rightarrow> Inr msk)"

definition get_tempraw :: "tempsensor \<Rightarrow> int" where
  "get_tempraw s = raw s"

definition get_tempC :: "tempsensor \<Rightarrow> real" where
  "get_tempC s = cooked s"

definition get_tempF :: "tempsensor \<Rightarrow> real" where
  "get_tempF s = cooked s * 9 / 5 + 32"

definition get_tempK :: "tempsensor \<Rightarrow> real" where
  "get_tempK s = cooked s + 27315 / 100"

text \<open>No branch is taken for any other \<open>units\<close>: Python then returns \<open>None\<close>.\<close>

definition get_tempcooked :: "tempsensor \<Rightarrow> real option" where
  "get_tempcooked s =
     (if units s = 0 then Some (get_tempC s)
      else if units s = 1 then Some (get_tempK s)
      else if units s = 2 then Some (get_tempF s)
      else None)"

subsection \<open>Reading the converter\<close>

text \<open>
  \<open>mcpdata\<close> is the list that \<open>bus.read_i2c_block_data\<close> returned. In 18-bit mode three
  data bytes precede the status byte, otherwise two.
\<close>

definition raw3 :: "int list \<Rightarrow> py_error + int" where
  "raw3 mcpdata =
     (case (py_index mcpdata 2, py_index mcpdata 1, py_index mcpdata 0) of
        (Inr b2, Inr b1, Inr b0) \<Rightarrow> Inr (b2 + push_bit 8 b1 + push_bit 16 b0)
      | _ \<Rightarrow> Inl IndexError)"

definition raw2 :: "int list \<Rightarrow> py_error + int" where
  "raw2 mcpdata =
     (case (py_index mcpdata 1, py_index mcpdata 0) of
        (Inr b1, Inr b0) \<Rightarrow> Inr (b1 + push_bit 8 b0)
      | _ \<Rightarrow> Inl IndexError)"

text \<open>
  The decode step shared by \<open>read_status\<close> and \<open>read_sensor\<close>: mask off the sign-extension
  bits, subtract \<open>mask + 1\<close> when the first byte has its top bit set, then cook.
\<close>

definition decode :: "tempsensor \<Rightarrow> int \<Rightarrow> int \<Rightarrow> int \<Rightarrow> tempsensor" where
  "decode s msk b0 r =
     (let r1 = r AND msk;
          r2 = (if b0 AND 0x80 \<noteq> 0 then r1 - (msk + 1) else r1)
      in s\<lparr>raw := r2, cooked := real_of_int r2 * slope s + intercept s\<rparr>)"

definition read_status :: "tempsensor \<Rightarrow> int list \<Rightarrow> py_error + (bool \<times> tempsensor)" where
  "read_status s mcpdata =
     (case py_index mcp3421 (mode s) of
        Inl e \<Rightarrow> Inl e
      | Inr (bits, rate, msk, cfg) \<Rightarrow>
          (case (if bits = 18 then (raw3 mcpdata, py_index mcpdata 3)
                 else (raw2 mcpdata, py_index mcpdata 2)) of
             (Inr r, Inr st) \<Rightarrow>
               (case py_index mcpdata 0 of
                  Inl e \<Rightarrow> Inl e
                | Inr b0 \<Rightarrow>
                    (let s1 = s\<lparr>raw := r, status := st\<rparr>
                     in if status s1 AND 0x80 \<noteq> 0 then Inr (False, s1)
                        else Inr (True, decode s1 msk b0 (raw s1))))
           | _ \<Rightarrow> Inl IndexError))"

definition read_sensor :: "tempsensor \<Rightarrow> int list \<Rightarrow> py_error + (int \<times> tempsensor)" where
  "read_sensor s mcpdata =
     (case py_index mcp3421 (mode s) of
        Inl e \<Rightarrow> Inl e
      | Inr (bits, rate, msk, cfg) \<Rightarrow>
          (case (if bits = 18 then raw3 mcpdata else raw2 mcpdata) of
             Inl e \<Rightarrow> Inl e
           | Inr r \<Rightarrow>
               (case py_index mcpdata 0 of
                  Inl e \<Rightarrow> Inl e
                | Inr b0 \<Rightarrow>
                    (let s1 = decode (s\<lparr>raw := r\<rparr>) msk b0 r in Inr (raw s1, s1)))))"

section \<open>jtlogc.py: the acquisition task (class sensorbackend)\<close>

text \<open>
  A queue is given by the items put on it, oldest first. The log queue of a sensor holds
  tuples \<open>(address, raw, cooked)\<close>; the display queue holds the raw and the cooked value
  as two separate items. \<open>cooked\<close> is whatever \<open>get_tempcooked\<close> returned, \<open>None\<close> included.
\<close>

type_synonym sample = "int \<times> int \<times> real option"

datatype pyval = PyInt int | PyFloat real | PyNone

definition cooked_val :: "real option \<Rightarrow> pyval" where
  "cooked_val c = (case c of None \<Rightarrow> PyNone | Some x \<Rightarrow> PyFloat x)"

text \<open>
  A task runs against what its environment shows it, one observation per loop pass.
  \<open>Finished\<close>: the loop was left. \<open>Raised\<close>: an exception ended the thread. \<open>Blocked\<close>: the
  observations ran out, or a blocking \<open>get\<close> found its queue empty, with the state reached.
\<close>

datatype 'a outcome = Finished 'a | Raised py_error | Blocked 'a

record backend =
  be_sensor :: tempsensor
  be_triggered :: bool
  be_qfileio :: "sample list"
  be_qdisplay :: "pyval list"

text \<open>
  The first loop of \<open>__sensoroneshottask\<close>: poll until one read reports ready. The result
  is the sensor after that read and the bus replies not yet consumed.
\<close>

fun await_initial_ready ::
  "tempsensor \<Rightarrow> int list list \<Rightarrow> (tempsensor \<times> int list list) outcome" where
  "await_initial_ready s [] = Blocked (s, [])"
| "await_initial_ready s (mcpdata # rest) =
     (case read_status s mcpdata of
        Inl e \<Rightarrow> Raised e
      | Inr (data_ready, s') \<Rightarrow>
          if data_ready then Finished (s', rest) else await_initial_ready s' rest)"

text \<open>One pass of the second loop, up to the mailbox check.\<close>

definition oneshot_body :: "backend \<Rightarrow> int list \<Rightarrow> py_error + backend" where
  "oneshot_body b mcpdata =
     (case read_status (be_sensor b) mcpdata of
        Inl e \<Rightarrow> Inl e
      | Inr (data_ready, s) \<Rightarrow>
          (let b1 = b\<lparr>be_sensor := s\<rparr>;
               b2 = (if \<not> be_triggered b1 \<and> \<not> data_ready
                     then b1\<lparr>be_triggered := True\<rparr> else b1)
           in if be_triggered b2 \<and> data_ready
              then Inr (b2\<lparr>be_triggered := False,
                            be_qfileio := be_qfileio b2 @
                              [(address s, get_tempraw s, get_tempcooked s)],
                            be_qdisplay := be_qdisplay b2 @
                              [PyInt (get_tempraw s), cooked_val (get_tempcooked s)]\<rparr>)
              else Inr b2))"

text \<open>
  The second loop. Each pass sees one bus reply and the mailbox: \<open>None\<close> when it is empty,
  otherwise the message taken from it. Only \<open>'q'\<close> has an effect.
\<close>

fun oneshot_loop :: "backend \<Rightarrow> (int list \<times> string option) list \<Rightarrow> backend outcome" where
  "oneshot_loop b [] = Blocked b"
| "oneshot_loop b ((mcpdata, mbox) # rest) =
     (case oneshot_body b mcpdata of
        Inl e \<Rightarrow> Raised e
      | Inr b' \<Rightarrow> if mbox = Some ''q'' then Finished b' else oneshot_loop b' rest)"

definition backend_start :: "tempsensor \<Rightarrow> backend" where
  "backend_start s =
     \<lparr>be_sensor = s, be_triggered = False, be_qfileio = [], be_qdisplay = []\<rparr>"

definition sensoroneshottask ::
  "tempsensor \<Rightarrow> int list list \<Rightarrow> (int list \<times> string option) list \<Rightarrow> backend outcome" where
  "sensoroneshottask s polls passes =
     (case await_initial_ready s polls of
        Raised e \<Rightarrow> Raised e
      | Blocked (s', r) \<Rightarrow> Blocked (backend_start s')
      | Finished (s', r) \<Rightarrow> oneshot_loop (backend_start s') passes)"

section \<open>jtlogc.py: the log writer (class datalogger)\<close>

subsection \<open>Formatting\<close>

fun dec_nat :: "nat \<Rightarrow> string" where
  "dec_nat n = (if n < 10 then [''0123456789'' ! n]
                else dec_nat (n div 10) @ [''0123456789'' ! (n mod 10)])"

fun hex_nat :: "nat \<Rightarrow> string" where
  "hex_nat n = (if n < 16 then [''0123456789abcdef'' ! n]
                else hex_nat (n div 16) @ [''0123456789abcdef'' ! (n mod 16)])"

declare dec_nat.simps [simp del] hex_nat.simps [simp del]

definition rjust :: "nat \<Rightarrow> char \<Rightarrow> string \<Rightarrow> string" where
  "rjust w c s = replicate (w - length s) c @ s"

definition str_int :: "int \<Rightarrow> string" where
  "str_int v = (if v < 0 then ''-'' @ dec_nat (nat (- v)) else dec_nat (nat v))"

text \<open>\<open>'{:03}'.format(v)\<close>: zero fill after the sign, width 3.\<close>

definition fmt_03 :: "int \<Rightarrow> string" where
  "fmt_03 v = (if v < 0 then ''-'' @ rjust 2 (CHR ''0'') (dec_nat (nat (- v)))
               else rjust 3 (CHR ''0'') (dec_nat (nat v)))"

definition fmt_02 :: "int \<Rightarrow> string" where
  "fmt_02 v = (if v < 0 then ''-'' @ rjust 1 (CHR ''0'') (dec_nat (nat (- v)))
               else rjust 2 (CHR ''0'') (dec_nat (nat v)))"

text \<open>\<open>'{:#Wx}'.format(v)\<close>: sign, \<open>0x\<close>, hexadecimal digits; right-aligned in W columns.\<close>

definition fmt_hex :: "nat \<Rightarrow> int \<Rightarrow> string" where
  "fmt_hex w v =
     rjust w (CHR '' '') ((if v < 0 then ''-'' else []) @ ''0x'' @ hex_nat (nat \<bar>v\<bar>))"

text \<open>Rounding to the nearest integer, an exact tie to the even neighbour.\<close>

definition round_half_even :: "real \<Rightarrow> int" where
  "round_half_even y =
     (let f = \<lfloor>y\<rfloor>; r = y - of_int f
      in if r < 1 / 2 then f else if r > 1 / 2 then f + 1
         else if even f then f else f + 1)"

text \<open>\<open>'{:#7.3f}'.format(x)\<close> for a number; \<open>None\<close> has no such format.\<close>

definition fmt_f3 :: "real \<Rightarrow> string" where
  "fmt_f3 x =
     (let n = nat (round_half_even (\<bar>x\<bar> * 1000))
      in rjust 7 (CHR '' '')
           ((if x < 0 then ''-'' else []) @ dec_nat (n div 1000) @ ''.'' @
            rjust 3 (CHR ''0'') (dec_nat (n mod 1000))))"

text \<open>\<open>',{:#4x},{:#7x},{:#7.3f},'.format(d[0],d[1],d[2])\<close>\<close>

definition fmt_group :: "sample \<Rightarrow> py_error + string" where
  "fmt_group d =
     (case d of (a, r, c) \<Rightarrow>
        (case c of
           None \<Rightarrow> Inl TypeError
         | Some x \<Rightarrow>
             Inr ('','' @ fmt_hex 4 a @ '','' @ fmt_hex 7 r @ '','' @ fmt_f3 x @ '','')))"

subsection \<open>Calendar time\<close>

text \<open>
  \<open>time.struct_time\<close> with Python's conventions: \<open>tm_mon\<close> from 1, \<open>tm_wday\<close> 0 for Monday.
  \<open>time.localtime\<close> depends on the host's time zone; the log writer takes it as the
  function \<open>localtime\<close> from whole epoch seconds. \<open>gmtime\<close> is that function on a host
  whose zone is UTC.
\<close>

record struct_time =
  tm_year :: int
  tm_mon :: int
  tm_mday :: int
  tm_hour :: int
  tm_min :: int
  tm_sec :: int
  tm_wday :: int

definition gmtime :: "int \<Rightarrow> struct_time" where
  "gmtime t =
     (let days = t div 86400; secs = t mod 86400;
          z = days + 719468; era = z div 146097; doe = z mod 146097;
          yoe = (doe - doe div 1460 + doe div 36524 - doe div 146096) div 365;
          doy = doe - (365 * yoe + yoe div 4 - yoe div 100);
          mp = (5 * doy + 2) div 153;
          m = (if mp < 10 then mp + 3 else mp - 9)
      in \<lparr>tm_year = yoe + era * 400 + (if m \<le> 2 then 1 else 0),
          tm_mon = m,
          tm_mday = doy - (153 * mp + 2) div 5 + 1,
          tm_hour = secs div 3600,
          tm_min = secs mod 3600 div 60,
          tm_sec = secs mod 60,
          tm_wday = (days + 3) mod 7\<rparr>)"

definition wday_name :: "string list" where
  "wday_name = [''Mon'', ''Tue'', ''Wed'', ''Thu'', ''Fri'', ''Sat'', ''Sun'']"

definition mon_name :: "string list" where
  "mon_name = [''Jan'', ''Feb'', ''Mar'', ''Apr'', ''May'', ''Jun'',
               ''Jul'', ''Aug'', ''Sep'', ''Oct'', ''Nov'', ''Dec'']"

text \<open>\<open>time.asctime\<close>: \<open>'Sun Jun 20 23:21:05 1993'\<close>, the day of the month in 3 columns.\<close>

definition asctime :: "struct_time \<Rightarrow> string" where
  "asctime tm =
     wday_name ! nat (tm_wday tm) @ '' '' @ mon_name ! nat (tm_mon tm - 1) @
     rjust 3 (CHR '' '') (str_int (tm_mday tm)) @ '' '' @
     fmt_02 (tm_hour tm) @ '':'' @ fmt_02 (tm_min tm) @ '':'' @ fmt_02 (tm_sec tm) @
     '' '' @ str_int (tm_year tm)"

text \<open>\<open>time.strftime('%Y/%m/%d %H:%M:%S', tm)\<close>\<close>

definition strftime_ymdhms :: "struct_time \<Rightarrow> string" where
  "strftime_ymdhms tm =
     str_int (tm_year tm) @ ''/'' @ fmt_02 (tm_mon tm) @ ''/'' @ fmt_02 (tm_mday tm) @
     '' '' @ fmt_02 (tm_hour tm) @ '':'' @ fmt_02 (tm_min tm) @ '':'' @ fmt_02 (tm_sec tm)"

text \<open>
  The first field of a row: the format string is built from the milliseconds
  \<open>int(timestamp % 1 * 1000)\<close> first and then filled in by \<open>strftime\<close>.
\<close>

definition row_stamp :: "(int \<Rightarrow> struct_time) \<Rightarrow> real \<Rightarrow> string" where
  "row_stamp localtime timestamp =
     strftime_ymdhms (localtime \<lfloor>timestamp\<rfloor>) @ ''.'' @
     fmt_03 \<lfloor>(timestamp - of_int \<lfloor>timestamp\<rfloor>) * 1000\<rfloor> @ '',''"

subsection \<open>The file\<close>

text \<open>
  A text file opened with \<open>'w'\<close>: its bytes and the position of the next write, which
  \<open>tell\<close> reports and \<open>seek\<close> sets as a number of bytes. A write replaces what lies under
  it and extends the file at its end.
\<close>

record textfile =
  content :: string
  fpos :: nat

text \<open>
  The file is written in UTF-8, the preferred encoding of the host (Raspbian). A \<open>str\<close>
  is a list of code points below \<open>0x110000\<close>, and \<open>len\<close> is the length of that list;
  \<open>utf8\<close> gives the bytes that \<open>write\<close> stores for it, from one byte for an ASCII
  character to four, and none for a surrogate, at which \<open>write\<close> raises. The strings that
  the task formats itself (numbers, the English names of days and months, punctuation) are
  ASCII; they are kept as \<open>string\<close>, which is then both their characters and their bytes.
\<close>

definition utf8_char :: "nat \<Rightarrow> py_error + string" where
  "utf8_char c =
     (if c < 0x80 then Inr [char_of c]
      else if c < 0x800 then Inr [char_of (0xC0 + c div 64), char_of (0x80 + c mod 64)]
      else if 0xD800 \<le> c \<and> c < 0xE000 then Inl UnicodeEncodeError
      else if c < 0x10000
      then Inr [char_of (0xE0 + c div 4096), char_of (0x80 + c div 64 mod 64),
                char_of (0x80 + c mod 64)]
      else Inr [char_of (0xF0 + c div 262144), char_of (0x80 + c div 4096 mod 64),
                char_of (0x80 + c div 64 mod 64), char_of (0x80 + c mod 64)])"

fun utf8 :: "nat list \<Rightarrow> py_error + string" where
  "utf8 [] = Inr []"
| "utf8 (c # cs) =
     (case utf8_char c of
        Inl e \<Rightarrow> Inl e
      | Inr b \<Rightarrow> (case utf8 cs of Inl e \<Rightarrow> Inl e | Inr bs \<Rightarrow> Inr (b @ bs)))"

definition fopen :: textfile where
  "fopen = \<lparr>content = [], fpos = 0\<rparr>"

definition fwrite :: "textfile \<Rightarrow> string \<Rightarrow> textfile" where
  "fwrite f s =
     \<lparr>content = take (fpos f) (content f) @ replicate (fpos f - length (content f)) (CHR 0x00)
                 @ s @ drop (fpos f + length s) (content f),
      fpos = fpos f + length s\<rparr>"

definition ftell :: "textfile \<Rightarrow> int" where
  "ftell f = int (fpos f)"

definition fseek :: "textfile \<Rightarrow> int \<Rightarrow> py_error + textfile" where
  "fseek f p = (if p < 0 then Inl ValueError else Inr (f\<lparr>fpos := nat p\<rparr>))"

subsection \<open>The task\<close>

text \<open>
  What \<open>__logwriter\<close> reads from its host when it starts and when it ends: the file name
  \<open>time.strftime(self.logfileprefix + '%Y%m%d%H%M%S.csv')\<close>, a \<open>str\<close> that begins with
  the configured directory and prefix and is given by its code points, the three local
  times that \<open>time.asctime()\<close> renders, and \<open>str(self.sampleperiod)\<close>.
\<close>

record loghost =
  lh_log :: "nat list"
  lh_start :: struct_time
  lh_dne :: struct_time
  lh_period :: string
  lh_end :: struct_time

text \<open>
  \<open>lg_tsq\<close> is the time stamp queue (the last member of \<open>qfileio\<close>), \<open>lg_qs\<close> the sensor
  queues before it, in order.
\<close>

record logger =
  lg_file :: textfile
  lg_endstamp :: int
  lg_msg :: string
  lg_tsq :: "real list"
  lg_qs :: "sample list list"

definition newline :: string where
  "newline = [CHR 0x0A]"

text \<open>
  The header. \<open>endstamp\<close> adds up \<open>len(header)\<close> of the first two lines, a number of
  characters: for \<open>'Filename: ' + log + '\n'\<close> that is 10, the code points of \<open>log\<close> and
  1, while the line written has the bytes of \<open>log\<close> between the same ASCII text.
\<close>

definition logwriter_open ::
  "loghost \<Rightarrow> real list \<Rightarrow> sample list list \<Rightarrow> py_error + logger" where
  "logwriter_open h tsq qs =
     (case utf8 (lh_log h) of
        Inl e \<Rightarrow> Inl e
      | Inr name \<Rightarrow>
          (let endstamp1 = int (length ''Filename: '' + length (lh_log h) + length newline);
               f1 = fwrite fopen (''Filename: '' @ name @ newline);
               header2 = ''Start time: '' @ asctime (lh_start h) @ newline;
               endstamp2 = endstamp1 + int (length header2);
               f2 = fwrite f1 header2;
               f3 = fwrite f2 (''dnE time: '' @ asctime (lh_dne h) @ newline);
               f4 = fwrite f3 (''Sample period: '' @ lh_period h @ '' seconds.'' @ newline)
           in Inr \<lparr>lg_file = f4, lg_endstamp = endstamp2, lg_msg = ''r'', lg_tsq = tsq,
                    lg_qs = qs\<rparr>))"

text \<open>
  The blocking gets of one pass: one time stamp, then one tuple from every sensor queue.
  A pass whose gets cannot all be served waits; the model leaves the queues as they were
  until the pass can run as a whole, which takes the same items in the same order.
\<close>

definition take_row ::
  "real list \<Rightarrow> sample list list \<Rightarrow> (real \<times> sample list \<times> real list \<times> sample list list) option"
where
  "take_row tsq qs =
     (case tsq of
        [] \<Rightarrow> None
      | t # tsq' \<Rightarrow>
          if list_ex (\<lambda>q. q = []) qs then None else Some (t, map hd qs, tsq', map tl qs))"

fun write_groups :: "textfile \<Rightarrow> sample list \<Rightarrow> py_error + textfile" where
  "write_groups f [] = Inr f"
| "write_groups f (d # ds) =
     (case fmt_group d of Inl e \<Rightarrow> Inl e | Inr s \<Rightarrow> write_groups (fwrite f s) ds)"

definition write_row ::
  "(int \<Rightarrow> struct_time) \<Rightarrow> textfile \<Rightarrow> real \<Rightarrow> sample list \<Rightarrow> py_error + textfile" where
  "write_row localtime f timestamp valsensor =
     (case write_groups (fwrite f (row_stamp localtime timestamp)) valsensor of
        Inl e \<Rightarrow> Inl e
      | Inr f2 \<Rightarrow>
          (case fseek f2 (ftell f2 - 1) of
             Inl e \<Rightarrow> Inl e
           | Inr f3 \<Rightarrow> Inr (fwrite f3 newline)))"

text \<open>The branch \<open>if msg == 'r'\<close> of one pass.\<close>

definition logwriter_row :: "(int \<Rightarrow> struct_time) \<Rightarrow> logger \<Rightarrow> logger outcome" where
  "logwriter_row localtime st =
     (case take_row (lg_tsq st) (lg_qs st) of
        None \<Rightarrow> Blocked st
      | Some (timestamp, valsensor, tsq', qs') \<Rightarrow>
          (let st1 = st\<lparr>lg_tsq := tsq', lg_qs := qs'\<rparr>
           in case py_index valsensor 0 of
                Inl e \<Rightarrow> Raised e
              | Inr (a, r, c) \<Rightarrow>
                  if a \<noteq> 0
                  then (case write_row localtime (lg_file st1) timestamp valsensor of
                          Inl e \<Rightarrow> Raised e
                        | Inr f \<Rightarrow> Finished (st1\<lparr>lg_file := f\<rparr>))
                  else Finished st1))"

text \<open>
  The loop: one mailbox observation per pass, \<open>None\<close> when the mailbox is empty. A halted
  pass only sleeps.
\<close>

fun logwriter_loop ::
  "(int \<Rightarrow> struct_time) \<Rightarrow> logger \<Rightarrow> string option list \<Rightarrow> logger outcome" where
  "logwriter_loop localtime st [] = Blocked st"
| "logwriter_loop localtime st (mbox # rest) =
     (case (if lg_msg st = ''r'' then logwriter_row localtime st else Finished st) of
        Raised e \<Rightarrow> Raised e
      | Blocked st' \<Rightarrow> Blocked st'
      | Finished st1 \<Rightarrow>
          (case mbox of
             None \<Rightarrow> logwriter_loop localtime st1 rest
           | Some m \<Rightarrow>
               if m = ''q'' then Finished (st1\<lparr>lg_msg := m\<rparr>)
               else logwriter_loop localtime (st1\<lparr>lg_msg := m\<rparr>) rest))"

text \<open>After the loop: seek to \<open>endstamp\<close>, write the end time, close.\<close>

definition logwriter_close :: "loghost \<Rightarrow> logger \<Rightarrow> py_error + logger" where
  "logwriter_close h st =
     (case fseek (lg_file st) (lg_endstamp st) of
        Inl e \<Rightarrow> Inl e
      | Inr f \<Rightarrow> Inr (st\<lparr>lg_file := fwrite f (''End time: '' @ asctime (lh_end h))\<rparr>))"

definition logwriter ::
  "loghost \<Rightarrow> (int \<Rightarrow> struct_time) \<Rightarrow> real list \<Rightarrow> sample list list \<Rightarrow> string option list
     \<Rightarrow> logger outcome" where
  "logwriter h localtime tsq qs mboxes =
     (case logwriter_open h tsq qs of
        Inl e \<Rightarrow> Raised e
      | Inr st0 \<Rightarrow>
          (case logwriter_loop localtime st0 mboxes of
             Raised e \<Rightarrow> Raised e
           | Blocked st \<Rightarrow> Blocked st
           | Finished st \<Rightarrow>
               (case logwriter_close h st of Inl e \<Rightarrow> Raised e | Inr st' \<Rightarrow> Finished st')))"

section \<open>jtlogc.py: the address of a configured sensor (sensorcfgwin.gensetup)\<close>

text \<open>
  Field 0 of the setup window: a key moves the index by \<open>delta\<close>, the index wraps around
  \<open>- 1 .. 7\<close>, and the configured address becomes \<open>- 1\<close> (no sensor) or the table's
  address at the index. The result is the new index and the address stored.
\<close>

definition gensetup_address :: "int \<Rightarrow> int \<Rightarrow> py_error + (int \<times> int)" where
  "gensetup_address sensoraddrind delta =
     (let i = sensoraddrind + delta;
          i = (if i < - 1 then 7 else if i > 7 then - 1 else i)
      in if i = - 1 then Inr (i, - 1)
         else (case py_index i2caddress i of Inl e \<Rightarrow> Inl e | Inr a \<Rightarrow> Inr (i, a)))"

section \<open>jtlogc.py: the global trigger (class sensorglobaltrigger)\<close>







section \<open>jtlogc.py: the display task (class sensorfrontend)\<close>







section \<open>jtlogc.py: teardown (appconfig.endsensorframework)\<close>

text \<open>
  With \<open>n\<close> sensors the mailboxes are \<open>qmsg[0..n-1]\<close> for the acquisition tasks,
  \<open>qmsg[n..2n-1]\<close> for the display tasks, \<open>qmsg[2n]\<close> for the log writer and \<open>qmsg[2n+1]\<close>
  for the trigger; \<open>qfileio[n]\<close> is the time stamp queue. Teardown is given by what it does
  to the queues and threads, in program order.
\<close>

datatype task = LogWriter | DisplayTask nat | AcquisitionTask nat | TriggerTask

datatype action =
    PutMsg nat string
  | CheckEmpty nat bool
  | PutLog nat sample
  | PutTime nat real
  | PutDisplay nat pyval
  | Join task
  | DelQueues

text \<open>
  The \<open>while True\<close> loop that waits for the log queues to drain. Each pass sees the list of
  the queues that are not empty at its checks; the loop ends at the first pass that finds
  none of \<open>qfileio[0..n]\<close> among them. The flag says that the loop has ended.
\<close>

fun wait_allempty :: "nat \<Rightarrow> nat list list \<Rightarrow> action list \<times> bool" where
  "wait_allempty n [] = ([], False)"
| "wait_allempty n (nonempty # rest) =
     (let checks = map (\<lambda>i. CheckEmpty i (i \<notin> set nonempty)) [0..<Suc n]
      in if list_all (\<lambda>i. i \<notin> set nonempty) [0..<Suc n] then (checks, True)
         else (case wait_allempty n rest of (tr, ended) \<Rightarrow> (checks @ tr, ended)))"

definition sentinel :: sample where
  "sentinel = (0, 0, Some 0)"

definition endsensorframework :: "nat \<Rightarrow> nat list list \<Rightarrow> real \<Rightarrow> action list outcome" where
  "endsensorframework n obs now =
     (let tr1 = [PutMsg (n * 2) ''q'']
      in case wait_allempty n obs of
           (w, ended) \<Rightarrow>
             if \<not> ended then Blocked (tr1 @ w)
             else Finished
               (tr1 @ w @
                map (\<lambda>i. PutLog i sentinel) [0..<n] @
                [PutTime n now, Join LogWriter] @
                map (\<lambda>q. PutMsg q ''q'') [n..<n * 2] @
                concat (map (\<lambda>q. [PutDisplay q (PyInt 0), PutDisplay q (PyInt 0)]) [0..<n]) @
                map (\<lambda>i. Join (DisplayTask i)) [0..<n] @
                map (\<lambda>q. PutMsg q ''q'') [0..<n] @
                map (\<lambda>i. Join (AcquisitionTask i)) [0..<n] @
                [PutMsg (n * 2 + 1) ''q'', Join TriggerTask, DelQueues]))"

section \<open>Notions used to state the properties\<close>

text \<open>What \<open>read_status\<close> reports for a bus reply: ready or not.\<close>

definition ready_of :: "tempsensor \<Rightarrow> int list \<Rightarrow> bool" where
  "ready_of s mcpdata = (case read_status s mcpdata of Inr (rdy, s') \<Rightarrow> rdy | Inl e \<Rightarrow> False)"

text \<open>
  The tuple that the sensor's getters give once \<open>read_status\<close> has processed a reply
  (for a reply that cannot be read, the getters' values before it).
\<close>

definition sample_of :: "tempsensor \<Rightarrow> int list \<Rightarrow> sample" where
  "sample_of s mcpdata =
     (case read_status s mcpdata of
        Inr (rdy, s') \<Rightarrow> (address s', get_tempraw s', get_tempcooked s')
      | Inl e \<Rightarrow> (address s, get_tempraw s, get_tempcooked s))"

text \<open>The passes that a loop runs: all of them up to and including the first that reads \<open>'q'\<close>.\<close>

fun seen :: "('a \<times> string option) list \<Rightarrow> ('a \<times> string option) list" where
  "seen [] = []"
| "seen ((x, mbox) # rest) = (x, mbox) # (if mbox = Some ''q'' then [] else seen rest)"

text \<open>
  The observations at which a not-ready to ready transition is seen: those that are ready
  and whose predecessor is not, \<open>prev\<close> being the observation before the first.
\<close>

definition edges :: "bool \<Rightarrow> ('a \<Rightarrow> bool) \<Rightarrow> 'a list \<Rightarrow> 'a list" where
  "edges prev rdy xs = map snd (filter (\<lambda>(p, x). \<not> p \<and> rdy x) (zip (prev # map rdy xs) xs))"

text \<open>The two queue items that the display queue receives for a tuple of the log queue.\<close>

definition display_items :: "sample \<Rightarrow> pyval list" where
  "display_items d = (case d of (a, r, c) \<Rightarrow> [PyInt r, cooked_val c])"

text \<open>A Celsius value in the unit numbered \<open>u\<close>: 0 Celsius, 1 Kelvin, 2 Fahrenheit.\<close>

definition in_units :: "int \<Rightarrow> real \<Rightarrow> real option" where
  "in_units u x =
     (if u = 0 then Some x else if u = 1 then Some (x + 27315 / 100)
      else if u = 2 then Some (x * 9 / 5 + 32) else None)"

text \<open>Two sensor objects with the same configuration, whatever they last read.\<close>

definition same_cfg :: "tempsensor \<Rightarrow> tempsensor \<Rightarrow> bool" where
  "same_cfg s t \<longleftrightarrow>
     address s = address t \<and> mode s = mode t \<and> slope s = slope t \<and>
     intercept s = intercept t \<and> units s = units t"

text \<open>The three fields of a Sample in a row, as \<open>fmt_group\<close> renders them, without the commas around.\<close>

definition sample_fields :: "sample \<Rightarrow> string" where
  "sample_fields d =
     (case d of (a, r, c) \<Rightarrow>
        fmt_hex 4 a @ '','' @ fmt_hex 7 r @ '','' @ (case c of Some x \<Rightarrow> fmt_f3 x | None \<Rightarrow> []))"

text \<open>The time stamp of a row without the comma after it: date, time, a dot, milliseconds.\<close>

definition stamp :: "(int \<Rightarrow> struct_time) \<Rightarrow> real \<Rightarrow> string" where
  "stamp localtime timestamp =
     strftime_ymdhms (localtime \<lfloor>timestamp\<rfloor>) @ ''.'' @
     fmt_03 \<lfloor>(timestamp - of_int \<lfloor>timestamp\<rfloor>) * 1000\<rfloor>"

text \<open>
  A row as the log writer leaves it in the file: the time stamp, then two commas and the
  three fields of each Sample, then the line end.
\<close>

definition row_text :: "(int \<Rightarrow> struct_time) \<Rightarrow> real \<Rightarrow> sample list \<Rightarrow> string" where
  "row_text localtime timestamp valsensor =
     stamp localtime timestamp @ concat (map (\<lambda>d. '',,'' @ sample_fields d) valsensor) @ newline"

text \<open>
  A row in the form the specification gives: every field, the time stamp included,
  separated from the next by one comma.
\<close>

definition row_single_commas :: "(int \<Rightarrow> struct_time) \<Rightarrow> real \<Rightarrow> sample list \<Rightarrow> string" where
  "row_single_commas localtime timestamp valsensor =
     stamp localtime timestamp @ concat (map (\<lambda>d. '','' @ sample_fields d) valsensor) @ newline"

text \<open>A local time of the years 1000 to 9999, with every field in its range.\<close>

definition valid_tm :: "struct_time \<Rightarrow> bool" where
  "valid_tm tm \<longleftrightarrow>
     1000 \<le> tm_year tm \<and> tm_year tm \<le> 9999 \<and> 1 \<le> tm_mon tm \<and> tm_mon tm \<le> 12 \<and>
     1 \<le> tm_mday tm \<and> tm_mday tm \<le> 31 \<and> 0 \<le> tm_hour tm \<and> tm_hour tm \<le> 23 \<and>
     0 \<le> tm_min tm \<and> tm_min tm \<le> 59 \<and> 0 \<le> tm_sec tm \<and> tm_sec tm \<le> 61 \<and>
     0 \<le> tm_wday tm \<and> tm_wday tm \<le> 6"

text \<open>
  The bytes of a log file: the two lines before the end-time line, \<open>name\<close> being the
  bytes of the file name, the end-time line given without its line end, the line of the
  sample period, and the data rows.
\<close>

definition log_text :: "string \<Rightarrow> loghost \<Rightarrow> string \<Rightarrow> string \<Rightarrow> string" where
  "log_text name h endline rows =
     (''Filename: '' @ name @ newline) @ (''Start time: '' @ asctime (lh_start h) @ newline) @
     endline @ newline @ (''Sample period: '' @ lh_period h @ '' seconds.'' @ newline) @ rows"

text \<open>
  The log writer when it has written the header of a file whose name has the bytes
  \<open>name\<close>: the file positioned at its end, \<open>endstamp\<close> counted in characters.
\<close>

definition opened :: "string \<Rightarrow> loghost \<Rightarrow> real list \<Rightarrow> sample list list \<Rightarrow> logger" where
  "opened name h tsq qs =
     \<lparr>lg_file = \<lparr>content = log_text name h (''dnE time: '' @ asctime (lh_dne h)) [],
                 fpos = length (log_text name h (''dnE time: '' @ asctime (lh_dne h)) [])\<rparr>,
      lg_endstamp = int (length ''Filename: '' + length (lh_log h) + length newline) +
                    int (length (''Start time: '' @ asctime (lh_start h) @ newline)),
      lg_msg = ''r'', lg_tsq = tsq, lg_qs = qs\<rparr>"

text \<open>In a trace, \<open>a\<close> occurs before the first occurrence of \<open>b\<close>.\<close>

definition precedes :: "'a \<Rightarrow> 'a \<Rightarrow> 'a list \<Rightarrow> bool" where
  "precedes a b tr \<longleftrightarrow> a \<in> set (takeWhile (\<lambda>x. x \<noteq> b) tr) \<and> b \<in> set tr"

text \<open>An action of the wait loop: a test of one queue for emptiness.\<close>

fun is_check :: "action \<Rightarrow> bool" where
  "is_check (CheckEmpty i b) = True"
| "is_check a = False"



section \<open>Concrete instances\<close>

text \<open>\<open>tempsensor(0, 3, 0)\<close>: address 0x68, 18 bits, Celsius.\<close>

definition sensor_c18 :: tempsensor where
  "sensor_c18 =
     \<lparr>i2caddrind = 0, address = 0x68, mode = 3, cfgbyte = 0x1c, status = 0x1c,
      slope = 9820354 / 10000000000, intercept = 7064385 / 100000, units = 0,
      raw = 0, cooked = 0\<rparr>"

text \<open>\<open>tempsensor(0, 3, 1)\<close>: the same sensor reporting in Kelvin.\<close>

definition sensor_k18 :: tempsensor where
  "sensor_k18 = sensor_c18\<lparr>units := 1\<rparr>"

text \<open>
  Seven passes of the acquisition loop in 18-bit mode. The status byte \<open>0x8c\<close> is not
  ready, \<open>0x0c\<close> is ready; the fifth pass reads \<open>'q'\<close>.
\<close>

definition passes_two_edges :: "(int list \<times> string option) list" where
  "passes_two_edges =
     [([0, 0, 0, 0x8c], None), ([0, 0, 0x10, 0x0c], None), ([0, 0, 0x10, 0x0c], None),
      ([0, 0, 0, 0x8c], None), ([0xff, 0xff, 0xff, 0x0c], Some ''q''),
      ([0, 0, 0, 0x8c], None), ([0, 0, 0x11, 0x0c], None)]"

definition result_two_edges :: backend where
  "result_two_edges =
     \<lparr>be_sensor = sensor_c18\<lparr>status := 0x0c, raw := - 1,
                     cooked := - 1 * (9820354 / 10000000000) + 7064385 / 100000\<rparr>,
      be_triggered = False,
      be_qfileio = [(0x68, 16, Some (16 * (9820354 / 10000000000) + 7064385 / 100000)),
                    (0x68, - 1, Some (- 1 * (9820354 / 10000000000) + 7064385 / 100000))],
      be_qdisplay = [PyInt 16, PyFloat (16 * (9820354 / 10000000000) + 7064385 / 100000),
                     PyInt (- 1), PyFloat (- 1 * (9820354 / 10000000000) + 7064385 / 100000)]\<rparr>"

text \<open>
  A short run of the whole task: one ready reply ends the first loop, then a not-ready
  and a ready reply with the raw value 16.
\<close>

definition polls_one :: "int list list" where
  "polls_one = [[0, 0, 0, 0x0c]]"

definition passes_one_edge :: "(int list \<times> string option) list" where
  "passes_one_edge = [([0, 0, 0, 0x8c], None), ([0, 0, 0x10, 0x0c], None)]"

definition result_kelvin :: backend where
  "result_kelvin =
     \<lparr>be_sensor = sensor_k18\<lparr>status := 0x0c, raw := 16,
                     cooked := 16 * (9820354 / 10000000000) + 7064385 / 100000\<rparr>,
      be_triggered = False,
      be_qfileio =
        [(0x68, 16, Some (16 * (9820354 / 10000000000) + 7064385 / 100000 + 27315 / 100))],
      be_qdisplay =
        [PyInt 16, PyFloat (16 * (9820354 / 10000000000) + 7064385 / 100000 + 27315 / 100)]\<rparr>"

text \<open>
  A log writer about to assemble a row from two sensor queues, on an empty file, and the
  same with the sentinel at the head of the first queue.
\<close>

definition logger_two :: logger where
  "logger_two =
     \<lparr>lg_file = fopen, lg_endstamp = 0, lg_msg = ''r'', lg_tsq = [5],
      lg_qs = [[(0x68, 16, Some (141 / 2))], [(0x69, - 1, Some 0)]]\<rparr>"

definition logger_sentinel :: logger where
  "logger_sentinel =
     \<lparr>lg_file = fopen, lg_endstamp = 0, lg_msg = ''r'', lg_tsq = [5],
      lg_qs = [[sentinel], [(0x69, - 1, Some 0)]]\<rparr>"

text \<open>
  A host in the zone UTC that starts the log writer at the epoch second 5 and ends it at
  the epoch second 9, with a sample period of one second.
\<close>

definition host_a :: loghost where
  "host_a =
     \<lparr>lh_log = map of_char ''log/jt19700101000005.csv'', lh_start = gmtime 5,
      lh_dne = gmtime 5, lh_period = ''1'', lh_end = gmtime 9\<rparr>"

text \<open>
  The log of that host after one row with the time stamp 5 and two sensors, before and
  after the end time is written.
\<close>

definition log_a_running :: string where
  "log_a_running =
     ''Filename: log/jt19700101000005.csv'' @ newline @
     ''Start time: Thu Jan  1 00:00:05 1970'' @ newline @
     ''dnE time: Thu Jan  1 00:00:05 1970'' @ newline @
     ''Sample period: 1 seconds.'' @ newline @
     ''1970/01/01 00:00:05.000,,0x68,   0x10, 70.500,,0x69,   -0x1,  0.000'' @ newline"

definition log_a_closed :: string where
  "log_a_closed =
     ''Filename: log/jt19700101000005.csv'' @ newline @
     ''Start time: Thu Jan  1 00:00:05 1970'' @ newline @
     ''End time: Thu Jan  1 00:00:09 1970'' @ newline @
     ''Sample period: 1 seconds.'' @ newline @
     ''1970/01/01 00:00:05.000,,0x68,   0x10, 70.500,,0x69,   -0x1,  0.000'' @ newline"

text \<open>
  Teardown with one sensor at the time 7: the first pass of the wait loop finds the sensor's
  log queue not empty, the second finds both queues empty.
\<close>

definition trace_one :: "action list" where
  "trace_one =
     [PutMsg 2 ''q'', CheckEmpty 0 False, CheckEmpty 1 True, CheckEmpty 0 True,
      CheckEmpty 1 True, PutLog 0 sentinel, PutTime 1 7, Join LogWriter,
      PutMsg 1 ''q'', PutDisplay 0 (PyInt 0), PutDisplay 0 (PyInt 0),
      Join (DisplayTask 0), PutMsg 0 ''q'', Join (AcquisitionTask 0),
      PutMsg 3 ''q'', Join TriggerTask, DelQueues]"

text \<open>
  The same host with the default log directory \<open>~/jtlogs\<close> in the home directory of a user
  whose name is \<open>jos\<close> and an e with an acute accent: the name of the log has the code
  point \<open>0xE9\<close>, two bytes in UTF-8.
\<close>

definition host_b :: loghost where
  "host_b =
     \<lparr>lh_log = map of_char ''/home/jos'' @ [0xE9] @
               map of_char ''/jtlogs/jtlog19700101000005.csv'',
      lh_start = gmtime 5, lh_dne = gmtime 5, lh_period = ''1'', lh_end = gmtime 9\<rparr>"

definition name_b :: string where
  "name_b = ''/home/jos'' @ [CHR 0xC3, CHR 0xA9] @ ''/jtlogs/jtlog19700101000005.csv''"

text \<open>
  The log of that host after one row, before the end time is written and after: the end
  time begins on the line end of the second line, and the last character of the
  placeholder is left.
\<close>

definition log_b_running :: string where
  "log_b_running =
     ''Filename: '' @ name_b @ newline @
     ''Start time: Thu Jan  1 00:00:05 1970'' @ newline @
     ''dnE time: Thu Jan  1 00:00:05 1970'' @ newline @
     ''Sample period: 1 seconds.'' @ newline @
     ''1970/01/01 00:00:05.000,,0x68,   0x10, 70.500,,0x69,   -0x1,  0.000'' @ newline"

definition log_b_closed :: string where
  "log_b_closed =
     ''Filename: '' @ name_b @ newline @
     ''Start time: Thu Jan  1 00:00:05 1970'' @
     ''End time: Thu Jan  1 00:00:09 1970'' @ ''0'' @ newline @
     ''Sample period: 1 seconds.'' @ newline @
     ''1970/01/01 00:00:05.000,,0x68,   0x10, 70.500,,0x69,   -0x1,  0.000'' @ newline"

text \<open>What the file of that host would be with the end time in the place of the placeholder.\<close>

definition log_b_intended :: string where
  "log_b_intended =
     ''Filename: '' @ name_b @ newline @
     ''Start time: Thu Jan  1 00:00:05 1970'' @ newline @
     ''End time: Thu Jan  1 00:00:09 1970'' @ newline @
     ''Sample period: 1 seconds.'' @ newline @
     ''1970/01/01 00:00:05.000,,0x68,   0x10, 70.500,,0x69,   -0x1,  0.000'' @ newline"

section \<open>The acquisition loop, pass by pass\<close>

lemma sensor_c18_init: "tempsensor_init 0 3 0 = Inr sensor_c18"
  by (simp add: tempsensor_init_def tempsensor_class_def set_address_def set_mode_def
      i2caddress_def mcp3421_def slope_intercept_def py_index_def sensor_c18_def Let_def)

lemma same_cfg_refl: "same_cfg s s" by (simp add: same_cfg_def)

lemma read_status_cong:
  assumes "same_cfg s t" and "read_status t d = Inr (rdy, t')"
  shows "\<exists>s'. read_status s d = Inr (rdy, s') \<and> same_cfg s' t' \<and> same_cfg s t' \<and>
           (rdy \<longrightarrow> raw s' = raw t' \<and> cooked s' = cooked t')"
  using assms
  by (auto simp: read_status_def same_cfg_def decode_def Let_def
      split: sum.splits prod.splits if_splits)

lemma ready_sample_cong:
  assumes "same_cfg s t" and "read_status t d = Inr (rdy, t')"
  shows "ready_of s d = rdy"
    and "rdy \<Longrightarrow> sample_of s d = (address t', get_tempraw t', get_tempcooked t')"
    and "same_cfg s t'"
proof -
  from read_status_cong [OF assms] obtain s' where
    s': "read_status s d = Inr (rdy, s')" "same_cfg s' t'" "same_cfg s t'"
        "rdy \<longrightarrow> raw s' = raw t' \<and> cooked s' = cooked t'" by blast
  show "ready_of s d = rdy" using s'(1) by (simp add: ready_of_def)
  show "same_cfg s t'" by (rule s'(3))
  assume rdy
  with s' show "sample_of s d = (address t', get_tempraw t', get_tempcooked t')"
    by (simp add: sample_of_def same_cfg_def get_tempraw_def get_tempcooked_def
        get_tempC_def get_tempK_def get_tempF_def)
qed

lemma oneshot_body_Inr:
  assumes "same_cfg s (be_sensor b)" and "oneshot_body b d = Inr b1"
  shows "be_triggered b1 = (\<not> ready_of s d)"
    and "same_cfg s (be_sensor b1)"
    and "be_qfileio b1 = be_qfileio b @
           (if be_triggered b \<and> ready_of s d then [sample_of s d] else [])"
    and "be_qdisplay b1 = be_qdisplay b @
           (if be_triggered b \<and> ready_of s d then display_items (sample_of s d) else [])"
proof -
  from assms(2) obtain rdy t' where rs: "read_status (be_sensor b) d = Inr (rdy, t')"
    by (auto simp: oneshot_body_def split: sum.splits)
  note c = ready_sample_cong [OF assms(1) rs]
  from assms(2) rs show "be_triggered b1 = (\<not> ready_of s d)"
    by (auto simp: oneshot_body_def c(1) Let_def split: if_splits)
  from assms(2) rs c(3) show "same_cfg s (be_sensor b1)"
    by (auto simp: oneshot_body_def Let_def split: if_splits)
  from assms(2) rs c(2) show "be_qfileio b1 = be_qfileio b @
           (if be_triggered b \<and> ready_of s d then [sample_of s d] else [])"
    by (auto simp: oneshot_body_def c(1) Let_def split: if_splits)
  from assms(2) rs c(2) show "be_qdisplay b1 = be_qdisplay b @
           (if be_triggered b \<and> ready_of s d then display_items (sample_of s d) else [])"
    by (auto simp: oneshot_body_def c(1) Let_def display_items_def split: if_splits)
qed

lemma edges_Cons:
  "edges prev rdy (x # xs) = (if \<not> prev \<and> rdy x then [x] else []) @ edges (rdy x) rdy xs"
  by (simp add: edges_def)

lemma edges_Nil: "edges prev rdy [] = []"
  by (simp add: edges_def)

lemma oneshot_loop_out:
  assumes "same_cfg s (be_sensor b)"
    and "oneshot_loop b passes = Finished b' \<or> oneshot_loop b passes = Blocked b'"
  shows "be_qfileio b' = be_qfileio b @
           map (sample_of s) (edges (\<not> be_triggered b) (ready_of s) (map fst (seen passes))) \<and>
         be_qdisplay b' = be_qdisplay b @
           concat (map (display_items \<circ> sample_of s)
             (edges (\<not> be_triggered b) (ready_of s) (map fst (seen passes)))) \<and>
         same_cfg s (be_sensor b')"
  using assms
proof (induction passes arbitrary: b)
  case Nil
  then show ?case by (simp add: edges_Nil)
next
  case (Cons p rest)
  obtain d m where p: "p = (d, m)" by (cases p)
  from Cons.prems(2) obtain b1 where b1: "oneshot_body b d = Inr b1"
    by (auto simp: p split: sum.splits)
  note body = oneshot_body_Inr [OF Cons.prems(1) b1]
  show ?case
  proof (cases "m = Some ''q''")
    case True
    with Cons.prems(2) b1 have "b' = b1" by (simp add: p)
    with True body show ?thesis by (auto simp: p edges_Cons edges_Nil)
  next
    case False
    with Cons.prems(2) b1 have
      "oneshot_loop b1 rest = Finished b' \<or> oneshot_loop b1 rest = Blocked b'"
      by (simp add: p)
    from Cons.IH [OF body(2) this] False body show ?thesis
      by (auto simp: p edges_Cons)
  qed
qed

lemma edges_all_ready: "\<forall>x\<in>set xs. rdy x \<Longrightarrow> edges True rdy xs = []"
proof -
  assume a: "\<forall>x\<in>set xs. rdy x"
  have "\<forall>(p, x)\<in>set (zip (True # map rdy xs) xs). p"
  proof (clarify)
    fix p x assume "(p, x) \<in> set (zip (True # map rdy xs) xs)"
    then obtain i where i: "i < length xs" "(True # map rdy xs) ! i = p"
      by (auto simp: set_zip)
    with a show p by (cases i) auto
  qed
  then have "filter (\<lambda>(p, x). \<not> p \<and> rdy x) (zip (True # map rdy xs) xs) = []"
    by (auto simp: filter_empty_conv)
  then show ?thesis by (simp add: edges_def)
qed

lemma edges_none_ready: "\<forall>x\<in>set xs. \<not> rdy x \<Longrightarrow> edges prev rdy xs = []"
proof -
  assume a: "\<forall>x\<in>set xs. \<not> rdy x"
  have "filter (\<lambda>(p, x). \<not> p \<and> rdy x) (zip (prev # map rdy xs) xs) = []"
    using a by (auto simp: filter_empty_conv dest: set_zip_rightD)
  then show ?thesis by (simp add: edges_def)
qed

lemma edges_ready: "x \<in> set (edges prev rdy xs) \<Longrightarrow> rdy x"
  by (auto simp: edges_def)

lemma sample_of_ready:
  assumes "ready_of s d"
  shows "\<exists>r. sample_of s d = (address s, r, in_units (units s) (real_of_int r * slope s + intercept s))"
  using assms
  by (auto simp: ready_of_def sample_of_def read_status_def decode_def Let_def in_units_def
      get_tempraw_def get_tempcooked_def get_tempC_def get_tempK_def get_tempF_def
      split: sum.splits prod.splits if_splits)

lemma await_initial_ready_cfg:
  "await_initial_ready s polls = Finished (s', r) \<or> await_initial_ready s polls = Blocked (s', r)
     \<Longrightarrow> same_cfg t s \<Longrightarrow> same_cfg t s'"
proof (induction polls arbitrary: s)
  case Nil
  then show ?case by simp
next
  case (Cons d polls)
  from Cons.prems(1) obtain rdy s1 where rs: "read_status s d = Inr (rdy, s1)"
    by (auto split: sum.splits)
  from ready_sample_cong(3) [OF Cons.prems(2) rs] have c: "same_cfg t s1" .
  show ?case
  proof (cases rdy)
    case True
    with Cons.prems(1) rs c show ?thesis by auto
  next
    case False
    with Cons.prems(1) rs have
      "await_initial_ready s1 polls = Finished (s', r) \<or> await_initial_ready s1 polls = Blocked (s', r)"
      by simp
    from Cons.IH [OF this c] show ?thesis .
  qed
qed

lemma sensoroneshottask_out:
  assumes "sensoroneshottask s polls passes = Finished b \<or>
           sensoroneshottask s polls passes = Blocked b"
  shows "\<exists>E. be_qfileio b = map (sample_of s) E \<and> (\<forall>d\<in>set E. ready_of s d) \<and>
             be_qdisplay b = concat (map display_items (be_qfileio b))"
proof (cases "await_initial_ready s polls")
  case (Raised e)
  with assms show ?thesis by (simp add: sensoroneshottask_def)
next
  case (Blocked x)
  with assms have "b = backend_start (fst x)"
    by (auto simp: sensoroneshottask_def split: prod.splits)
  then have "be_qfileio b = map (sample_of s) [] \<and> be_qdisplay b = []"
    by (simp add: backend_start_def)
  then show ?thesis by force
next
  case (Finished x)
  obtain s' r where x: "x = (s', r)" by (cases x)
  from Finished x have c: "same_cfg s s'"
    using await_initial_ready_cfg [OF _ same_cfg_refl, of s polls s' r] by simp
  from assms Finished x have
    "oneshot_loop (backend_start s') passes = Finished b \<or>
     oneshot_loop (backend_start s') passes = Blocked b"
    by (simp add: sensoroneshottask_def)
  from oneshot_loop_out [OF _ this, of s] c
  have "be_qfileio b = map (sample_of s) (edges True (ready_of s) (map fst (seen passes))) \<and>
        be_qdisplay b = concat (map (display_items \<circ> sample_of s)
             (edges True (ready_of s) (map fst (seen passes))))"
    by (simp add: backend_start_def)
  then show ?thesis
    by (intro exI [of _ "edges True (ready_of s) (map fst (seen passes))"])
       (auto simp: map_concat comp_def dest: edges_ready)
qed

section \<open>Writing rows at the end of the file\<close>

lemma fwrite_at_end:
  assumes "fpos f = length (content f)"
  shows "content (fwrite f s) = content f @ s"
    and "fpos (fwrite f s) = length (content (fwrite f s))"
  using assms by (simp_all add: fwrite_def)

lemma fwrite_inside:
  assumes "p \<le> length (content f)"
  shows "content (fwrite (f\<lparr>fpos := p\<rparr>) s) =
           take p (content f) @ s @ drop (p + length s) (content f)"
    and "fpos (fwrite (f\<lparr>fpos := p\<rparr>) s) = p + length s"
  using assms by (simp_all add: fwrite_def)

lemma fmt_group_Inr: "fmt_group d = Inr s \<Longrightarrow> s = '','' @ sample_fields d @ '',''"
  by (auto simp: fmt_group_def sample_fields_def split: prod.splits option.splits)

lemma write_groups_at_end:
  assumes "write_groups f vs = Inr f'" and "fpos f = length (content f)"
  shows "content f' = content f @ concat (map (\<lambda>d. '','' @ sample_fields d @ '','') vs) \<and>
         fpos f' = length (content f')"
  using assms
proof (induction vs arbitrary: f)
  case Nil
  then show ?case by simp
next
  case (Cons d vs)
  from Cons.prems(1) obtain s where s: "fmt_group d = Inr s"
    and w: "write_groups (fwrite f s) vs = Inr f'"
    by (auto split: sum.splits)
  from Cons.IH [OF w fwrite_at_end(2) [OF Cons.prems(2)]]
    fwrite_at_end(1) [OF Cons.prems(2), of s] fmt_group_Inr [OF s]
  show ?case by simp
qed

lemma butlast_groups:
  "butlast (X @ '','' @ concat (map (\<lambda>d. '','' @ sample_fields d @ '','') vs)) =
     X @ concat (map (\<lambda>d. '',,'' @ sample_fields d) vs)"
proof (induction vs arbitrary: X)
  case Nil
  show ?case by (simp add: butlast_append)
next
  case (Cons d vs)
  have "X @ '','' @ concat (map (\<lambda>d. '','' @ sample_fields d @ '','') (d # vs)) =
        (X @ '',,'' @ sample_fields d) @ '','' @ concat (map (\<lambda>d. '','' @ sample_fields d @ '','') vs)"
    by simp
  then show ?case using Cons.IH [of "X @ '',,'' @ sample_fields d"] by simp
qed

lemma row_stamp_stamp: "row_stamp localtime t = stamp localtime t @ '',''"
  by (simp add: row_stamp_def stamp_def)

lemma write_row_at_end:
  assumes "write_row localtime f t vs = Inr f'" and "fpos f = length (content f)"
  shows "content f' = content f @ row_text localtime t vs"
    and "fpos f' = length (content f')"
proof -
  define T where
    "T = stamp localtime t @ '','' @ concat (map (\<lambda>d. '','' @ sample_fields d @ '','') vs)"
  from assms(1) obtain f2 where
    g: "write_groups (fwrite f (row_stamp localtime t)) vs = Inr f2"
    by (auto simp: write_row_def split: sum.splits)
  from write_groups_at_end [OF g fwrite_at_end(2) [OF assms(2)]]
    fwrite_at_end(1) [OF assms(2), of "row_stamp localtime t"]
  have c2: "content f2 = content f @ T" and p2: "fpos f2 = length (content f2)"
    by (simp_all add: row_stamp_stamp T_def)
  have ne: "T \<noteq> []" by (simp add: T_def)
  define n where "n = length (content f2)"
  have n: "0 < n" using ne by (simp add: n_def c2)
  then have "nat (int n - 1) = n - 1" "\<not> int n - 1 < 0" by linarith+
  then have sk: "fseek f2 (ftell f2 - 1) = Inr (f2\<lparr>fpos := n - 1\<rparr>)"
    by (simp add: fseek_def ftell_def p2 n_def)
  from assms(1) g sk have f': "f' = fwrite (f2\<lparr>fpos := n - 1\<rparr>) newline"
    by (simp add: write_row_def)
  have "take (n - 1) (content f2) = butlast (content f2)"
    unfolding n_def by (rule butlast_conv_take [symmetric])
  also have "\<dots> = content f @ butlast T"
    using ne by (simp add: c2 butlast_append)
  finally have tk: "take (n - 1) (content f2) = content f @ butlast T" .
  have dr: "drop (n - 1 + length newline) (content f2) = []"
    using n by (simp add: n_def newline_def)
  have "content f' = take (n - 1) (content f2) @ newline @
                      drop (n - 1 + length newline) (content f2)"
    unfolding f' by (rule fwrite_inside(1)) (simp add: n_def)
  then have c': "content f' = content f @ butlast T @ newline"
    unfolding tk dr by simp
  have "butlast T = stamp localtime t @ concat (map (\<lambda>d. '',,'' @ sample_fields d) vs)"
    unfolding T_def by (rule butlast_groups)
  with c' show "content f' = content f @ row_text localtime t vs"
    by (simp add: row_text_def)
  have "length (content f') = n"
    using ne by (simp add: c' n_def c2 newline_def)
  moreover have "fpos f' = n" using n by (simp add: f' fwrite_def newline_def)
  ultimately show "fpos f' = length (content f')" by simp
qed

section \<open>Evaluating the formatters\<close>

lemma replicate_num: "replicate (numeral k) c = c # replicate (pred_numeral k) c"
  by (simp add: numeral_eq_Suc)

lemma dec_nat_num:
  "dec_nat (numeral k) =
     (if numeral k < (10::nat) then [''0123456789'' ! numeral k]
      else dec_nat (numeral k div 10) @ [''0123456789'' ! (numeral k mod 10)])"
  by (rule dec_nat.simps)

lemma dec_nat_0: "dec_nat 0 = ''0''"
  by (subst dec_nat.simps) simp

lemma dec_nat_1: "dec_nat (Suc 0) = ''1''"
  by (subst dec_nat.simps) simp

lemma hex_nat_num:
  "hex_nat (numeral k) =
     (if numeral k < (16::nat) then [''0123456789abcdef'' ! numeral k]
      else hex_nat (numeral k div 16) @ [''0123456789abcdef'' ! (numeral k mod 16)])"
  by (rule hex_nat.simps)

lemma hex_nat_0: "hex_nat 0 = ''0''"
  by (subst hex_nat.simps) simp

lemma hex_nat_1: "hex_nat (Suc 0) = ''1''"
  by (subst hex_nat.simps) simp

lemmas fmt_eval = replicate_num dec_nat_num dec_nat_0 dec_nat_1 hex_nat_num hex_nat_0 hex_nat_1
  rjust_def str_int_def fmt_02_def fmt_03_def fmt_hex_def fmt_f3_def round_half_even_def Let_def

lemma gmtime_5:
  "gmtime 5 = \<lparr>tm_year = 1970, tm_mon = 1, tm_mday = 1, tm_hour = 0, tm_min = 0,
                tm_sec = 5, tm_wday = 3\<rparr>"
  unfolding gmtime_def Let_def by simp

lemma stamp_5: "stamp gmtime 5 = ''1970/01/01 00:00:05.000''"
  by (simp add: stamp_def gmtime_5 strftime_ymdhms_def fmt_eval)

lemma fields_a: "sample_fields (0x68, 16, Some (141 / 2)) = ''0x68,   0x10, 70.500''"
  by (simp add: sample_fields_def fmt_eval)

lemma fields_b: "sample_fields (0x69, - 1, Some 0) = ''0x69,   -0x1,  0.000''"
  by (simp add: sample_fields_def fmt_eval)

lemma row_two:
  "row_text gmtime 5 [(0x68, 16, Some (141 / 2)), (0x69, - 1, Some 0)] =
     ''1970/01/01 00:00:05.000,,0x68,   0x10, 70.500,,0x69,   -0x1,  0.000'' @ newline"
  by (simp add: row_text_def stamp_5 fields_a fields_b)

lemma row_two_single:
  "row_single_commas gmtime 5 [(0x68, 16, Some (141 / 2)), (0x69, - 1, Some 0)] =
     ''1970/01/01 00:00:05.000,0x68,   0x10, 70.500,0x69,   -0x1,  0.000'' @ newline"
  by (simp add: row_single_commas_def stamp_5 fields_a fields_b)

section \<open>The rows of the log\<close>

lemma fwrite_fpos: "fpos (fwrite f s) = fpos f + length s"
  by (simp add: fwrite_def)

lemma write_groups_total:
  assumes "list_all (\<lambda>d. snd (snd d) \<noteq> None) vs"
  shows "\<exists>f'. write_groups f vs = Inr f' \<and> fpos f \<le> fpos f'"
  using assms
proof (induction vs arbitrary: f)
  case Nil
  then show ?case by simp
next
  case (Cons d vs)
  obtain a r c where d: "d = (a, r, c)" by (cases d)
  from Cons.prems d obtain x where c: "c = Some x" by auto
  define s where "s = '','' @ fmt_hex 4 a @ '','' @ fmt_hex 7 r @ '','' @ fmt_f3 x @ '',''"
  have g: "fmt_group d = Inr s" by (simp add: fmt_group_def d c s_def)
  from Cons.prems have "list_all (\<lambda>d. snd (snd d) \<noteq> None) vs" by simp
  from Cons.IH [OF this, of "fwrite f s"] obtain f' where
    "write_groups (fwrite f s) vs = Inr f'" "fpos (fwrite f s) \<le> fpos f'" by blast
  then show ?case using g by (simp add: fwrite_fpos)
qed

lemma write_row_total:
  assumes "list_all (\<lambda>d. snd (snd d) \<noteq> None) vs"
  shows "\<exists>f'. write_row localtime f t vs = Inr f'"
proof -
  from write_groups_total [OF assms, of "fwrite f (row_stamp localtime t)"] obtain f2 where
    g: "write_groups (fwrite f (row_stamp localtime t)) vs = Inr f2"
    and p: "fpos (fwrite f (row_stamp localtime t)) \<le> fpos f2" by blast
  have "length (row_stamp localtime t) = Suc (length (stamp localtime t))"
    by (simp add: row_stamp_stamp)
  with p have "0 < fpos f2" by (simp add: fwrite_fpos)
  then have "\<not> ftell f2 - 1 < 0" by (simp add: ftell_def)
  then show ?thesis using g by (simp add: write_row_def fseek_def)
qed

lemma write_row_result:
  assumes "list_all (\<lambda>d. snd (snd d) \<noteq> None) vs" and "fpos f = length (content f)"
  shows "write_row localtime f t vs =
           Inr \<lparr>content = content f @ row_text localtime t vs,
                fpos = length (content f) + length (row_text localtime t vs)\<rparr>"
proof -
  from write_row_total [OF assms(1)] obtain f' where w: "write_row localtime f t vs = Inr f'"
    by blast
  from write_row_at_end [OF w assms(2)] have "f' = \<lparr>content = content f @ row_text localtime t vs,
                fpos = length (content f) + length (row_text localtime t vs)\<rparr>"
    by simp
  with w show ?thesis by simp
qed

lemma row_text_nonempty: "row_text localtime t vs \<noteq> []"
  by (simp add: row_text_def newline_def)

lemma take_row_Some:
  assumes "take_row tsq qs = Some (t, vs, tsq', qs')"
  shows "tsq = t # tsq'" and "vs = map hd qs" and "qs' = map tl qs" and "[] \<notin> set qs"
  using assms by (auto simp: take_row_def list_ex_iff split: list.splits if_splits)

lemma take_row_two:
  "take_row (lg_tsq logger_two) (lg_qs logger_two) =
     Some (5, (0x68, 16, Some (141 / 2)) # [(0x69, - 1, Some 0)], [], [[], []])"
  by (simp add: take_row_def logger_two_def)

lemma take_row_sentinel:
  "take_row (lg_tsq logger_sentinel) (lg_qs logger_sentinel) =
     Some (5, (0, 0, Some 0) # [(0x69, - 1, Some 0)], [], [[], []])"
  by (simp add: take_row_def logger_sentinel_def sentinel_def)

lemma run_logger_two:
  "logwriter_row gmtime logger_two =
     Finished \<lparr>lg_file =
                 \<lparr>content = ''1970/01/01 00:00:05.000,,0x68,   0x10, 70.500,,0x69,   -0x1,  0.000''
                              @ newline,
                  fpos = 68\<rparr>,
               lg_endstamp = 0, lg_msg = ''r'', lg_tsq = [], lg_qs = [[], []]\<rparr>"
proof -
  have "write_row gmtime fopen 5 [(0x68, 16, Some (141 / 2)), (0x69, - 1, Some 0)] =
          Inr \<lparr>content = ''1970/01/01 00:00:05.000,,0x68,   0x10, 70.500,,0x69,   -0x1,  0.000''
                              @ newline,
                  fpos = 68\<rparr>"
  proof -
    have c: "list_all (\<lambda>d. snd (snd d) \<noteq> None) [(0x68, 16, Some (141 / 2)), (0x69, - 1, Some (0::real))]"
      by (simp only: list.pred_inject snd_conv option.distinct simp_thms)
    have p: "fpos fopen = length (content fopen)" by (simp add: fopen_def)
    show ?thesis
      unfolding write_row_result [OF c p] row_two by (simp add: fopen_def newline_def)
  qed
  then show ?thesis
    using take_row_two by (simp add: logwriter_row_def py_index_def logger_two_def)
qed

section \<open>The header of the log and the loop of the log writer\<close>

lemma dec_nat_len1: "n < 10 \<Longrightarrow> length (dec_nat n) = 1"
  by (subst dec_nat.simps) simp

lemma dec_nat_len2: "n < 100 \<Longrightarrow> length (dec_nat n) \<le> 2"
  by (subst dec_nat.simps) (simp add: dec_nat_len1)

lemma dec_nat_len4:
  assumes "1000 \<le> n" and "n < 10000"
  shows "length (dec_nat n) = 4"
proof -
  have a: "\<not> n < 10" "\<not> n div 10 < 10" "\<not> n div 10 div 10 < 10" "n div 10 div 10 div 10 < 10"
    using assms by simp_all
  show ?thesis
    apply (subst dec_nat.simps)
    apply (simp only: a if_False)
    apply (subst dec_nat.simps)
    apply (simp only: a if_False)
    apply (subst dec_nat.simps)
    apply (simp only: a if_False)
    apply (simp add: dec_nat_len1 [OF a(4)])
    done
qed

lemma fmt_02_length: "0 \<le> v \<Longrightarrow> v < 100 \<Longrightarrow> length (fmt_02 v) = 2"
  using dec_nat_len2 [of "nat v"] by (simp add: fmt_02_def rjust_def)

lemma nth_wday_name: "0 \<le> w \<Longrightarrow> w \<le> 6 \<Longrightarrow> length (wday_name ! nat w) = 3"
proof -
  assume "0 \<le> w" "w \<le> 6"
  then have "nat w < length wday_name" by (simp add: wday_name_def)
  then have "wday_name ! nat w \<in> set wday_name" by (rule nth_mem)
  moreover have "\<forall>s\<in>set wday_name. length s = 3" by (simp add: wday_name_def)
  ultimately show ?thesis by blast
qed

lemma nth_mon_name: "1 \<le> m \<Longrightarrow> m \<le> 12 \<Longrightarrow> length (mon_name ! nat (m - 1)) = 3"
proof -
  assume "1 \<le> m" "m \<le> 12"
  then have "nat (m - 1) < length mon_name" by (simp add: mon_name_def)
  then have "mon_name ! nat (m - 1) \<in> set mon_name" by (rule nth_mem)
  moreover have "\<forall>s\<in>set mon_name. length s = 3" by (simp add: mon_name_def)
  ultimately show ?thesis by blast
qed

lemma asctime_length:
  assumes "valid_tm tm"
  shows "length (asctime tm) = 24"
proof -
  from assms have v: "1000 \<le> tm_year tm" "tm_year tm \<le> 9999" "1 \<le> tm_mon tm" "tm_mon tm \<le> 12"
     "1 \<le> tm_mday tm" "tm_mday tm \<le> 31" "0 \<le> tm_hour tm" "tm_hour tm \<le> 23"
     "0 \<le> tm_min tm" "tm_min tm \<le> 59" "0 \<le> tm_sec tm" "tm_sec tm \<le> 61"
     "0 \<le> tm_wday tm" "tm_wday tm \<le> 6"
    by (simp_all add: valid_tm_def)
  have y: "length (str_int (tm_year tm)) = 4"
    using v(1,2) dec_nat_len4 [of "nat (tm_year tm)"] by (simp add: str_int_def)
  have "nat (tm_mday tm) < 100" using v(6) by linarith
  then have "length (dec_nat (nat (tm_mday tm))) \<le> 2" by (rule dec_nat_len2)
  then have d: "length (rjust 3 (CHR '' '') (str_int (tm_mday tm))) = 3"
    using v(5) by (simp add: str_int_def rjust_def)
  have t: "length (fmt_02 (tm_hour tm)) = 2" "length (fmt_02 (tm_min tm)) = 2"
    "length (fmt_02 (tm_sec tm)) = 2"
    using v by (simp_all add: fmt_02_length)
  show ?thesis
    by (simp add: asctime_def y d t nth_wday_name [OF v(13,14)] nth_mon_name [OF v(3,4)])
qed

lemma utf8_ascii:
  assumes "\<forall>c\<in>set s. of_char c < (128::nat)"
  shows "utf8 (map of_char s) = Inr s"
  using assms by (induction s) (simp_all add: utf8_char_def)

lemma utf8_append:
  "utf8 (xs @ ys) =
     (case utf8 xs of
        Inl e \<Rightarrow> Inl e
      | Inr a \<Rightarrow> (case utf8 ys of Inl e \<Rightarrow> Inl e | Inr b \<Rightarrow> Inr (a @ b)))"
  by (induction xs) (simp_all split: sum.splits)

lemma logwriter_open_eq:
  assumes "utf8 (lh_log h) = Inr name"
  shows "logwriter_open h tsq qs = Inr (opened name h tsq qs)"
  using assms
  by (simp add: logwriter_open_def opened_def Let_def fwrite_def fopen_def log_text_def)

lemma opened_at_end:
  "fpos (lg_file (opened name h tsq qs)) = length (content (lg_file (opened name h tsq qs)))"
  by (simp add: opened_def)

lemma logwriter_row_inv:
  assumes "logwriter_row localtime st = Finished st'"
    and "fpos (lg_file st) = length (content (lg_file st))"
  shows "lg_endstamp st' = lg_endstamp st \<and> lg_msg st' = lg_msg st \<and>
         (\<exists>rows. content (lg_file st') = content (lg_file st) @ rows) \<and>
         fpos (lg_file st') = length (content (lg_file st'))"
proof -
  from assms(1) obtain t vs tsq' qs' where tk: "take_row (lg_tsq st) (lg_qs st) = Some (t, vs, tsq', qs')"
    by (auto simp: logwriter_row_def split: option.splits)
  from assms(1) tk obtain a r c where i: "py_index vs 0 = Inr (a, r, c)"
    by (auto simp: logwriter_row_def Let_def split: sum.splits prod.splits)
  show ?thesis
  proof (cases "a = 0")
    case True
    with assms tk i show ?thesis by (auto simp: logwriter_row_def Let_def)
  next
    case False
    with assms(1) tk i obtain f where w: "write_row localtime (lg_file st) t vs = Inr f"
      and st': "st' = st\<lparr>lg_tsq := tsq', lg_qs := qs', lg_file := f\<rparr>"
      by (auto simp: logwriter_row_def Let_def split: sum.splits)
    from write_row_at_end [OF w assms(2)] st' show ?thesis by simp
  qed
qed

lemma logwriter_loop_inv:
  assumes "logwriter_loop localtime st mboxes = Finished st'"
    and "fpos (lg_file st) = length (content (lg_file st))"
  shows "lg_endstamp st' = lg_endstamp st \<and>
         (\<exists>rows. content (lg_file st') = content (lg_file st) @ rows) \<and>
         fpos (lg_file st') = length (content (lg_file st'))"
  using assms
proof (induction mboxes arbitrary: st)
  case Nil
  then show ?case by simp
next
  case (Cons mbox rest)
  define o1 where "o1 = (if lg_msg st = ''r'' then logwriter_row localtime st else Finished st)"
  from Cons.prems(1) obtain st1 where o1: "o1 = Finished st1"
    by (cases o1) (auto simp: o1_def)
  have inv1: "lg_endstamp st1 = lg_endstamp st \<and>
         (\<exists>rows. content (lg_file st1) = content (lg_file st) @ rows) \<and>
         fpos (lg_file st1) = length (content (lg_file st1))"
  proof (cases "lg_msg st = ''r''")
    case True
    with o1 have "logwriter_row localtime st = Finished st1" by (simp add: o1_def)
    from logwriter_row_inv [OF this Cons.prems(2)] show ?thesis by blast
  next
    case False
    with o1 have "st1 = st" by (simp add: o1_def)
    with Cons.prems(2) show ?thesis by simp
  qed
  then obtain rows1 where r1: "content (lg_file st1) = content (lg_file st) @ rows1" by blast
  from Cons.prems(1) o1
  have "(case mbox of
             None \<Rightarrow> logwriter_loop localtime st1 rest
           | Some m \<Rightarrow>
               if m = ''q'' then Finished (st1\<lparr>lg_msg := m\<rparr>)
               else logwriter_loop localtime (st1\<lparr>lg_msg := m\<rparr>) rest) = Finished st'"
    by (simp add: o1_def)
  then consider (q) "st' = st1\<lparr>lg_msg := ''q''\<rparr>"
    | (go) m where "logwriter_loop localtime (st1\<lparr>lg_msg := m\<rparr>) rest = Finished st'"
    | (none) "logwriter_loop localtime st1 rest = Finished st'"
    by (auto split: option.splits if_splits)
  then show ?case
  proof cases
    case q
    with inv1 show ?thesis by simp
  next
    case (go m)
    from Cons.IH [OF go] inv1 r1 show ?thesis by auto
  next
    case none
    from Cons.IH [OF none] inv1 r1 show ?thesis by auto
  qed
qed

lemma overwrite_line:
  assumes "length old = length new"
  shows "fwrite \<lparr>content = A @ old @ B, fpos = length A\<rparr> new =
           \<lparr>content = A @ new @ B, fpos = length A + length new\<rparr>"
  using assms by (simp add: fwrite_def)

lemma first_row:
  assumes tk: "take_row tsq qs = Some (t, (a, r, c) # vs, tsq', qs')" and a: "a \<noteq> 0"
    and cooked: "list_all (\<lambda>d. snd (snd d) \<noteq> None) ((a, r, c) # vs)"
  shows "logwriter_row localtime (opened name h tsq qs) =
           Finished ((opened name h tsq' qs')
                       \<lparr>lg_file :=
                          \<lparr>content = log_text name h (''dnE time: '' @ asctime (lh_dne h))
                                        (row_text localtime t ((a, r, c) # vs)),
                           fpos = length (log_text name h (''dnE time: '' @ asctime (lh_dne h))
                                            (row_text localtime t ((a, r, c) # vs)))\<rparr>\<rparr>)"
proof -
  define f0 where "f0 = lg_file (opened name h tsq qs)"
  have p: "fpos f0 = length (content f0)" unfolding f0_def by (rule opened_at_end)
  have c0: "content f0 = log_text name h (''dnE time: '' @ asctime (lh_dne h)) []"
    by (simp add: f0_def opened_def)
  have lt: "\<And>rows. log_text name h (''dnE time: '' @ asctime (lh_dne h)) rows =
                  log_text name h (''dnE time: '' @ asctime (lh_dne h)) [] @ rows"
    by (simp add: log_text_def)
  have w: "write_row localtime f0 t ((a, r, c) # vs) =
             Inr \<lparr>content = log_text name h (''dnE time: '' @ asctime (lh_dne h))
                                (row_text localtime t ((a, r, c) # vs)),
                  fpos = length (log_text name h (''dnE time: '' @ asctime (lh_dne h))
                                   (row_text localtime t ((a, r, c) # vs)))\<rparr>"
    unfolding write_row_result [OF cooked p] c0
    by (subst (3 4) lt) simp
  have m: "lg_tsq (opened name h tsq qs) = tsq" "lg_qs (opened name h tsq qs) = qs"
    by (simp_all add: opened_def)
  show ?thesis
    using tk a w
    by (simp add: logwriter_row_def m py_index_def f0_def [symmetric]) (simp add: opened_def)
qed

lemma first_row_loop:
  assumes tk: "take_row tsq qs = Some (t, (a, r, c) # vs, tsq', qs')" and a: "a \<noteq> 0"
    and cooked: "list_all (\<lambda>d. snd (snd d) \<noteq> None) ((a, r, c) # vs)"
  shows "logwriter_loop localtime (opened name h tsq qs) [None] =
           Blocked ((opened name h tsq' qs')
                       \<lparr>lg_file :=
                          \<lparr>content = log_text name h (''dnE time: '' @ asctime (lh_dne h))
                                        (row_text localtime t ((a, r, c) # vs)),
                           fpos = length (log_text name h (''dnE time: '' @ asctime (lh_dne h))
                                            (row_text localtime t ((a, r, c) # vs)))\<rparr>\<rparr>)"
    and "logwriter_loop localtime (opened name h tsq qs) [Some ''q''] =
           Finished ((opened name h tsq' qs')
                       \<lparr>lg_file :=
                          \<lparr>content = log_text name h (''dnE time: '' @ asctime (lh_dne h))
                                        (row_text localtime t ((a, r, c) # vs)),
                           fpos = length (log_text name h (''dnE time: '' @ asctime (lh_dne h))
                                            (row_text localtime t ((a, r, c) # vs)))\<rparr>,
                        lg_msg := ''q''\<rparr>)"
proof -
  have m: "lg_msg (opened name h tsq qs) = ''r''" by (simp add: opened_def)
  show "logwriter_loop localtime (opened name h tsq qs) [None] =
           Blocked ((opened name h tsq' qs')
                       \<lparr>lg_file :=
                          \<lparr>content = log_text name h (''dnE time: '' @ asctime (lh_dne h))
                                        (row_text localtime t ((a, r, c) # vs)),
                           fpos = length (log_text name h (''dnE time: '' @ asctime (lh_dne h))
                                            (row_text localtime t ((a, r, c) # vs)))\<rparr>\<rparr>)"
    by (simp add: m first_row [OF tk a cooked])
  show "logwriter_loop localtime (opened name h tsq qs) [Some ''q''] =
           Finished ((opened name h tsq' qs')
                       \<lparr>lg_file :=
                          \<lparr>content = log_text name h (''dnE time: '' @ asctime (lh_dne h))
                                        (row_text localtime t ((a, r, c) # vs)),
                           fpos = length (log_text name h (''dnE time: '' @ asctime (lh_dne h))
                                            (row_text localtime t ((a, r, c) # vs)))\<rparr>,
                        lg_msg := ''q''\<rparr>)"
    by (simp add: m first_row [OF tk a cooked])
qed

lemma gmtime_9:
  "gmtime 9 = \<lparr>tm_year = 1970, tm_mon = 1, tm_mday = 1, tm_hour = 0, tm_min = 0,
                tm_sec = 9, tm_wday = 3\<rparr>"
  unfolding gmtime_def Let_def by simp

lemma asctime_5: "asctime (gmtime 5) = ''Thu Jan  1 00:00:05 1970''"
  by (simp add: gmtime_5 asctime_def wday_name_def mon_name_def fmt_eval)

lemma asctime_9: "asctime (gmtime 9) = ''Thu Jan  1 00:00:09 1970''"
  by (simp add: gmtime_9 asctime_def wday_name_def mon_name_def fmt_eval)

lemma utf8_host_a: "utf8 (lh_log host_a) = Inr ''log/jt19700101000005.csv''"
  unfolding host_a_def loghost.select_convs by (rule utf8_ascii) simp

lemma utf8_host_b: "utf8 (lh_log host_b) = Inr name_b"
proof -
  have 1: "utf8 (map of_char ''/home/jos'') = Inr ''/home/jos''"
    by (rule utf8_ascii) simp
  have 2: "utf8 (map of_char ''/jtlogs/jtlog19700101000005.csv'') =
             Inr ''/jtlogs/jtlog19700101000005.csv''"
    by (rule utf8_ascii) simp
  have 3: "utf8 [0xE9] = Inr [CHR 0xC3, CHR 0xA9]"
    by (simp add: utf8_char_def char_of_def bit_0)
  show ?thesis
    unfolding host_b_def loghost.select_convs utf8_append 1 2 3 name_b_def by simp
qed

lemma take_row_2:
  "take_row [5] [[(0x68, 16, Some (141 / 2))], [(0x69, - 1, Some 0)]] =
     Some (5, (0x68, 16, Some (141 / 2)) # [(0x69, - 1, Some 0)], [], [[], []])"
  by (simp add: take_row_def)

lemma cooked_2:
  "list_all (\<lambda>d. snd (snd d) \<noteq> None) ((0x68, 16, Some (141 / 2)) # [(0x69, - 1, Some (0::real))])"
  by (simp only: list.pred_inject snd_conv option.distinct simp_thms)

lemma log_text_host_a:
  "log_text ''log/jt19700101000005.csv'' host_a (''dnE time: '' @ asctime (lh_dne host_a))
     (row_text gmtime 5 ((0x68, 16, Some (141 / 2)) # [(0x69, - 1, Some 0)])) = log_a_running"
  by (simp add: log_text_def host_a_def asctime_5 row_two log_a_running_def)

lemma log_text_host_b:
  "log_text name_b host_b (''dnE time: '' @ asctime (lh_dne host_b))
     (row_text gmtime 5 ((0x68, 16, Some (141 / 2)) # [(0x69, - 1, Some 0)])) = log_b_running"
  by (simp add: log_text_def host_b_def asctime_5 row_two log_b_running_def)

lemma length_log_a: "length log_a_running = 201"
  by (simp add: log_a_running_def newline_def)

lemma length_log_b: "length log_b_running = 219"
  by (simp add: log_b_running_def name_b_def newline_def)

lemma endstamp_host_a: "lg_endstamp (opened name host_a tsq qs) = 72"
  by (simp add: opened_def host_a_def asctime_5 newline_def)

lemma endstamp_host_b: "lg_endstamp (opened name host_b tsq qs) = 89"
  by (simp add: opened_def host_b_def asctime_5 newline_def)

lemma addr_nonzero: "(0x68::int) \<noteq> 0"
  by simp

lemma opened_host_a:
  "(opened name host_a [] [[], []])\<lparr>lg_file := F\<rparr> =
     \<lparr>lg_file = F, lg_endstamp = 72, lg_msg = ''r'', lg_tsq = [], lg_qs = [[], []]\<rparr>"
  by (simp add: opened_def host_a_def asctime_5 newline_def)

lemma opened_host_b:
  "(opened name host_b [] [[], []])\<lparr>lg_file := F\<rparr> =
     \<lparr>lg_file = F, lg_endstamp = 89, lg_msg = ''r'', lg_tsq = [], lg_qs = [[], []]\<rparr>"
  by (simp add: opened_def host_b_def asctime_5 newline_def)


lemma loop_host_a_quit:
  "logwriter_loop gmtime
     (opened ''log/jt19700101000005.csv'' host_a [5]
        [[(0x68, 16, Some (141 / 2))], [(0x69, - 1, Some 0)]]) [Some ''q''] =
   Finished \<lparr>lg_file = \<lparr>content = log_a_running, fpos = 201\<rparr>, lg_endstamp = 72,
            lg_msg = ''q'', lg_tsq = [], lg_qs = [[], []]\<rparr>"
  unfolding first_row_loop(2) [OF take_row_2 addr_nonzero cooked_2] log_text_host_a length_log_a
    opened_host_a by simp

lemma loop_host_b_quit:
  "logwriter_loop gmtime
     (opened name_b host_b [5] [[(0x68, 16, Some (141 / 2))], [(0x69, - 1, Some 0)]])
     [Some ''q''] =
   Finished \<lparr>lg_file = \<lparr>content = log_b_running, fpos = 219\<rparr>, lg_endstamp = 89,
            lg_msg = ''q'', lg_tsq = [], lg_qs = [[], []]\<rparr>"
  unfolding first_row_loop(2) [OF take_row_2 addr_nonzero cooked_2] log_text_host_b length_log_b
    opened_host_b by simp

lemma close_host_a:
  "logwriter_close host_a
     \<lparr>lg_file = \<lparr>content = log_a_running, fpos = 201\<rparr>, lg_endstamp = 72,
      lg_msg = ''q'', lg_tsq = [], lg_qs = [[], []]\<rparr> =
   Inr \<lparr>lg_file = \<lparr>content = log_a_closed, fpos = 106\<rparr>, lg_endstamp = 72,
        lg_msg = ''q'', lg_tsq = [], lg_qs = [[], []]\<rparr>"
proof -
  define A where "A = ''Filename: log/jt19700101000005.csv'' @ newline @
                      ''Start time: Thu Jan  1 00:00:05 1970'' @ newline"
  define B where "B = newline @ ''Sample period: 1 seconds.'' @ newline @
     ''1970/01/01 00:00:05.000,,0x68,   0x10, 70.500,,0x69,   -0x1,  0.000'' @ newline"
  have r: "log_a_running = A @ ''dnE time: Thu Jan  1 00:00:05 1970'' @ B"
    and c: "log_a_closed = A @ ''End time: Thu Jan  1 00:00:09 1970'' @ B"
    and l: "length A = 72"
    by (simp_all add: log_a_running_def log_a_closed_def A_def B_def newline_def)
  have len: "length ''dnE time: Thu Jan  1 00:00:05 1970'' =
             length ''End time: Thu Jan  1 00:00:09 1970''" by simp
  have e: "''End time: '' @ asctime (lh_end host_a) = ''End time: Thu Jan  1 00:00:09 1970''"
    by (simp add: host_a_def asctime_9)
  have sk: "fseek \<lparr>content = log_a_running, fpos = 201\<rparr> 72 =
              Inr \<lparr>content = A @ ''dnE time: Thu Jan  1 00:00:05 1970'' @ B, fpos = length A\<rparr>"
    by (simp add: fseek_def r l)
  show ?thesis
    unfolding logwriter_close_def logger.select_convs sk e sum.case overwrite_line [OF len] c
    by (simp add: l)
qed

lemma close_host_b:
  "logwriter_close host_b
     \<lparr>lg_file = \<lparr>content = log_b_running, fpos = 219\<rparr>, lg_endstamp = 89,
      lg_msg = ''q'', lg_tsq = [], lg_qs = [[], []]\<rparr> =
   Inr \<lparr>lg_file = \<lparr>content = log_b_closed, fpos = 123\<rparr>, lg_endstamp = 89,
        lg_msg = ''q'', lg_tsq = [], lg_qs = [[], []]\<rparr>"
proof -
  define A where "A = ''Filename: '' @ name_b @ newline @
                      ''Start time: Thu Jan  1 00:00:05 1970''"
  define B where "B = ''0'' @ newline @ ''Sample period: 1 seconds.'' @ newline @
     ''1970/01/01 00:00:05.000,,0x68,   0x10, 70.500,,0x69,   -0x1,  0.000'' @ newline"
  have r: "log_b_running = A @ (newline @ ''dnE time: Thu Jan  1 00:00:05 197'') @ B"
    and c: "log_b_closed = A @ ''End time: Thu Jan  1 00:00:09 1970'' @ B"
    and l: "length A = 89"
    by (simp_all add: log_b_running_def log_b_closed_def A_def B_def newline_def name_b_def)
  have len: "length (newline @ ''dnE time: Thu Jan  1 00:00:05 197'') =
             length ''End time: Thu Jan  1 00:00:09 1970''" by (simp add: newline_def)
  have e: "''End time: '' @ asctime (lh_end host_b) = ''End time: Thu Jan  1 00:00:09 1970''"
    by (simp add: host_b_def asctime_9)
  have sk: "fseek \<lparr>content = log_b_running, fpos = 219\<rparr> 89 =
              Inr \<lparr>content = A @ (newline @ ''dnE time: Thu Jan  1 00:00:05 197'') @ B,
                   fpos = length A\<rparr>"
    by (simp add: fseek_def r l)
  show ?thesis
    unfolding logwriter_close_def logger.select_convs sk e sum.case overwrite_line [OF len] c
    by (simp add: l)
qed

section \<open>The wait loop of teardown\<close>

lemma wait_allempty_ended:
  assumes "wait_allempty n obs = (w, True)"
  shows "list_all is_check w \<and> (\<exists>w0. w = w0 @ map (\<lambda>i. CheckEmpty i True) [0..<Suc n])"
  using assms
proof (induction obs arbitrary: w)
  case Nil
  then show ?case by simp
next
  case (Cons nonempty rest)
  define checks where "checks = map (\<lambda>i. CheckEmpty i (i \<notin> set nonempty)) [0..<Suc n]"
  have ck: "list_all is_check checks" by (simp add: checks_def list_all_iff)
  show ?case
  proof (cases "list_all (\<lambda>i. i \<notin> set nonempty) [0..<Suc n]")
    case True
    then have "checks = map (\<lambda>i. CheckEmpty i True) [0..<Suc n]"
      unfolding checks_def by (intro map_cong refl) (auto simp: list_all_iff)
    moreover from Cons.prems True have "w = checks"
      by (simp add: checks_def Let_def del: upt_Suc)
    ultimately show ?thesis using ck by (metis append_Nil)
  next
    case False
    with Cons.prems obtain tr where r: "wait_allempty n rest = (tr, True)" and w: "w = checks @ tr"
      by (auto simp: checks_def Let_def split: prod.splits simp del: upt_Suc)
    from Cons.IH [OF r] obtain w0 where "list_all is_check tr"
      "tr = w0 @ map (\<lambda>i. CheckEmpty i True) [0..<Suc n]" by blast
    then show ?thesis using ck w
      by (metis append_assoc list_all_append)
  qed
qed

lemma wait_allempty_total:
  assumes "list_ex (\<lambda>nonempty. list_all (\<lambda>i. i \<notin> set nonempty) [0..<Suc n]) obs"
  shows "\<exists>w. wait_allempty n obs = (w, True)"
  using assms
proof (induction obs)
  case Nil
  then show ?case by simp
next
  case (Cons nonempty rest)
  show ?case
  proof (cases "list_all (\<lambda>i. i \<notin> set nonempty) [0..<Suc n]")
    case True
    then show ?thesis by (simp add: Let_def del: upt_Suc)
  next
    case False
    with Cons.prems have "list_ex (\<lambda>nonempty. list_all (\<lambda>i. i \<notin> set nonempty) [0..<Suc n]) rest"
      by (simp del: upt_Suc)
    from Cons.IH [OF this] obtain w where "wait_allempty n rest = (w, True)" by blast
    with False show ?thesis by (simp add: Let_def del: upt_Suc)
  qed
qed

lemma teardown_one: "endsensorframework 1 [[0], []] 7 = Finished trace_one"
  by (simp add: endsensorframework_def trace_one_def Let_def numeral_2_eq_2)

section \<open>Tasks that have not received run\<close>






section \<open>The decoded raw value\<close>

lemma py_index_mcp3421:
  "py_index mcp3421 i = Inr e \<Longrightarrow>
     e = (12, 240, 0x7ff, 0x10) \<or> e = (14, 60, 0x1fff, 0x14) \<or>
     e = (16, 15, 0x7fff, 0x18) \<or> e = (18, 375 / 100, 0x1ffff, 0x1c)"
proof -
  assume a: "py_index mcp3421 i = Inr e"
  define j where "j = (if i < 0 then 4 + i else i)"
  from a have r: "0 \<le> j \<and> j < 4" and e: "e = mcp3421 ! nat j"
    by (auto simp: py_index_def mcp3421_def j_def split: if_splits)
  from r have "nat j = 0 \<or> nat j = 1 \<or> nat j = 2 \<or> nat j = 3" by linarith
  with e show ?thesis by (auto simp: mcp3421_def)
qed

lemma decode_raw_range:
  assumes "0 \<le> M"
  shows "if b0 AND 0x80 \<noteq> 0
         then - (M + 1) \<le> raw (decode s M b0 r) \<and> raw (decode s M b0 r) \<le> - 1
         else 0 \<le> raw (decode s M b0 r) \<and> raw (decode s M b0 r) \<le> M"
proof -
  define x where "x = r AND M"
  have x: "0 \<le> x" "x \<le> M" using assms by (simp_all add: x_def)
  have raw_eq: "raw (decode s M b0 r) = (if b0 AND 0x80 \<noteq> 0 then x - (M + 1) else x)"
    by (simp add: decode_def Let_def x_def)
  show ?thesis unfolding raw_eq using x by simp
qed

lemma read_sensor_c18_min:
  "read_sensor sensor_c18 [0xFE, 0, 0, 0] =
     Inr (- 131072, sensor_c18\<lparr>raw := - 131072,
                               cooked := - 131072 * (9820354 / 10000000000) + 7064385 / 100000\<rparr>)"
  by (simp add: read_sensor_def sensor_c18_def mcp3421_def py_index_def raw3_def decode_def Let_def)

text \<open>
  C4, as amended. For every entry \<open>(W, rate, M, cfg)\<close> of the mode table, the sample mask is
  \<open>M = 2 ^ (W - 1) - 1\<close> (not \<open>2 ^ W - 1\<close>), and for every list of transmitted bytes that
  \<open>read_sensor\<close> decodes, or that \<open>read_status\<close> decodes on a ready status, the raw value
  lies in \<open>[- (M + 1), - 1]\<close> when the top bit of the first byte is set and in \<open>[0, M]\<close>
  otherwise. In terms of the bit width the negative range is \<open>[- 2 ^ (W - 1), - 1]\<close>.
\<close>

theorem decode_range:
  assumes tab: "py_index mcp3421 (mode s) = Inr (W, rate, M, cfg)"
    and rd: "read_sensor s mcpdata = Inr (r, s') \<or>
             (read_status s mcpdata = Inr (True, s') \<and> r = raw s')"
    and b0: "py_index mcpdata 0 = Inr b0"
  shows "M = 2 ^ (nat W - 1) - 1 \<and>
         (if b0 AND 0x80 \<noteq> 0 then - (M + 1) \<le> r \<and> r \<le> - 1 else 0 \<le> r \<and> r \<le> M)"
proof -
  from py_index_mcp3421 [OF tab] have M: "M = 2 ^ (nat W - 1) - 1" and M0: "0 \<le> M"
    by auto
  from rd have "\<exists>t x. r = raw (decode t M b0 x)"
  proof
    assume "read_sensor s mcpdata = Inr (r, s')"
    then show ?thesis using tab b0
      by (auto simp: read_sensor_def Let_def split: sum.splits if_splits)
  next
    assume "read_status s mcpdata = Inr (True, s') \<and> r = raw s'"
    then show ?thesis using tab b0
      by (auto simp: read_status_def Let_def split: sum.splits if_splits prod.splits)
  qed
  then obtain t x where r: "r = raw (decode t M b0 x)" by blast
  have R: "if b0 AND 0x80 \<noteq> 0 then - (M + 1) \<le> r \<and> r \<le> - 1 else 0 \<le> r \<and> r \<le> M"
    unfolding r by (rule decode_raw_range [OF M0])
  from M R show ?thesis by blast
qed

text \<open>
  The theorem at the 18-bit sensor and the bytes \<open>FE 00 00\<close>, the most negative 18-bit
  value with its sign extension: the raw value is \<open>- 131072 = - (M + 1)\<close>.
\<close>

theorem decode_range_witness:
  "read_sensor sensor_c18 [0xFE, 0, 0, 0] =
     Inr (- 131072, sensor_c18\<lparr>raw := - 131072,
                               cooked := - 131072 * (9820354 / 10000000000) + 7064385 / 100000\<rparr>) \<and>
   (0x1ffff :: int) = 2 ^ (nat 18 - 1) - 1 \<and>
   (if (0xFE :: int) AND 0x80 \<noteq> 0
    then - (0x1ffff + 1) \<le> (- 131072 :: int) \<and> (- 131072 :: int) \<le> - 1
    else 0 \<le> (- 131072 :: int) \<and> (- 131072 :: int) \<le> 0x1ffff)"
proof -
  have h1: "py_index mcp3421 (mode sensor_c18) = Inr (18, 375 / 100, 0x1ffff, 0x1c)"
    by (simp add: sensor_c18_def mcp3421_def py_index_def)
  have h3: "py_index [0xFE, 0, 0, 0 :: int] 0 = Inr 0xFE"
    by (simp add: py_index_def)
  from decode_range [OF h1 disjI1 [OF read_sensor_c18_min] h3] read_sensor_c18_min
  show ?thesis by blast
qed

text \<open>
  C4 as stated fails there: the mode's sample mask \<open>M = 0x1ffff\<close> is not \<open>2 ^ 18 - 1\<close>, and
  the decoded value \<open>- 131072\<close> lies below \<open>- (M + 1) / 2 = - 65536\<close>.
\<close>

theorem decode_range_counterexample:
  "get_resolution sensor_c18 = Inr 18 \<and> get_samplemask sensor_c18 = Inr 0x1ffff \<and>
   (0x1ffff :: int) \<noteq> 2 ^ 18 - 1 \<and> (0xFE :: int) AND 0x80 \<noteq> 0 \<and>
   read_sensor sensor_c18 [0xFE, 0, 0, 0] =
     Inr (- 131072, sensor_c18\<lparr>raw := - 131072,
                               cooked := - 131072 * (9820354 / 10000000000) + 7064385 / 100000\<rparr>) \<and>
   \<not> (- ((0x1ffff + 1) div 2) \<le> (- 131072 :: int))"
  using read_sensor_c18_min
  by (simp add: get_resolution_def get_samplemask_def sensor_c18_def mcp3421_def py_index_def)

section \<open>One Sample per conversion\<close>

lemma run_two_edges:
  "oneshot_loop (backend_start sensor_c18) passes_two_edges = Finished result_two_edges"
  by (simp add: passes_two_edges_def backend_start_def sensor_c18_def oneshot_body_def
      read_status_def mcp3421_def py_index_def raw3_def decode_def Let_def
      get_tempraw_def get_tempcooked_def get_tempC_def cooked_val_def result_two_edges_def)

text \<open>
  C1. Let the second loop of the acquisition task start with \<open>triggered = False\<close>, as it
  does after the initial-ready phase, and run over any passes without raising. The tuples
  it puts on its log queue are exactly the Samples of the observations at which a
  not-ready to ready transition is seen, one each and in order, the observation before the
  first counting as ready; the display queue receives the raw and the cooked value of
  each of these Samples and nothing else. When all observations are ready, or all are not
  ready, nothing is put on either queue.
\<close>

theorem one_sample_per_transition:
  assumes "be_triggered b = False"
    and "oneshot_loop b passes = Finished b' \<or> oneshot_loop b passes = Blocked b'"
  shows "be_qfileio b' = be_qfileio b @
           map (sample_of (be_sensor b))
             (edges True (ready_of (be_sensor b)) (map fst (seen passes))) \<and>
         be_qdisplay b' = be_qdisplay b @
           concat (map (display_items \<circ> sample_of (be_sensor b))
             (edges True (ready_of (be_sensor b)) (map fst (seen passes)))) \<and>
         ((\<forall>x\<in>set (map fst (seen passes)). ready_of (be_sensor b) x) \<or>
          (\<forall>x\<in>set (map fst (seen passes)). \<not> ready_of (be_sensor b) x) \<longrightarrow>
            be_qfileio b' = be_qfileio b \<and> be_qdisplay b' = be_qdisplay b)"
proof -
  let ?E = "edges True (ready_of (be_sensor b)) (map fst (seen passes))"
  from oneshot_loop_out [OF same_cfg_refl assms(2)] assms(1)
  have out: "be_qfileio b' = be_qfileio b @ map (sample_of (be_sensor b)) ?E"
    "be_qdisplay b' = be_qdisplay b @ concat (map (display_items \<circ> sample_of (be_sensor b)) ?E)"
    by simp_all
  have "?E = []"
    if "(\<forall>x\<in>set (map fst (seen passes)). ready_of (be_sensor b) x) \<or>
        (\<forall>x\<in>set (map fst (seen passes)). \<not> ready_of (be_sensor b) x)"
    using that edges_all_ready edges_none_ready by blast
  with out show ?thesis by simp
qed

text \<open>
  The theorem on a run with two transitions: ready is seen three times, two Samples are
  queued.
\<close>

theorem one_sample_per_transition_witness:
  "be_triggered (backend_start sensor_c18) = False \<and>
   oneshot_loop (backend_start sensor_c18) passes_two_edges = Finished result_two_edges \<and>
   be_qfileio result_two_edges = be_qfileio (backend_start sensor_c18) @
     map (sample_of (be_sensor (backend_start sensor_c18)))
       (edges True (ready_of (be_sensor (backend_start sensor_c18)))
          (map fst (seen passes_two_edges))) \<and>
   length (be_qfileio result_two_edges) = 2 \<and> length (be_qdisplay result_two_edges) = 4"
proof -
  have h1: "be_triggered (backend_start sensor_c18) = False"
    by (simp add: backend_start_def)
  have h2: "length (be_qfileio result_two_edges) = 2 \<and> length (be_qdisplay result_two_edges) = 4"
    by (simp add: result_two_edges_def)
  from one_sample_per_transition [OF h1 disjI1 [OF run_two_edges]] h1 h2 run_two_edges
  show ?thesis by blast
qed

section \<open>The cooked value of a Sample\<close>

lemma run_kelvin:
  "sensoroneshottask sensor_k18 polls_one passes_one_edge = Blocked result_kelvin"
  by (simp add: sensoroneshottask_def polls_one_def passes_one_edge_def backend_start_def
      sensor_k18_def sensor_c18_def oneshot_body_def read_status_def mcp3421_def py_index_def
      raw3_def decode_def Let_def get_tempraw_def get_tempcooked_def get_tempK_def
      cooked_val_def result_kelvin_def)

text \<open>
  C3, as amended. Every Sample that an acquisition task puts on its log queue carries
  \<open>raw * slope + intercept\<close> converted to the sensor's configured unit by
  \<open>get_tempcooked\<close>: the value itself for Celsius, plus 273.15 for Kelvin, times 9/5 plus
  32 for Fahrenheit (arithmetic read exactly). For a Celsius sensor the cooked value is
  \<open>raw * slope + intercept\<close>. The display queue receives the same raw and cooked values;
  no conversion is left to display time.
\<close>

theorem cooked_value_in_sensor_units:
  assumes "sensoroneshottask s polls passes = Finished b \<or>
           sensoroneshottask s polls passes = Blocked b"
  shows "(\<forall>(a, r, c)\<in>set (be_qfileio b).
            c = in_units (units s) (real_of_int r * slope s + intercept s)) \<and>
         (units s = 0 \<longrightarrow>
            (\<forall>(a, r, c)\<in>set (be_qfileio b). c = Some (real_of_int r * slope s + intercept s))) \<and>
         be_qdisplay b = concat (map display_items (be_qfileio b))"
proof -
  from sensoroneshottask_out [OF assms] obtain E where
    E: "be_qfileio b = map (sample_of s) E" "\<forall>d\<in>set E. ready_of s d"
       "be_qdisplay b = concat (map display_items (be_qfileio b))" by blast
  have 1: "\<forall>(a, r, c)\<in>set (be_qfileio b).
            c = in_units (units s) (real_of_int r * slope s + intercept s)"
  proof (clarify)
    fix a r c assume "(a, r, c) \<in> set (be_qfileio b)"
    with E obtain d where "d \<in> set E" "sample_of s d = (a, r, c)" by auto
    with E(2) sample_of_ready [of s d] show
      "c = in_units (units s) (real_of_int r * slope s + intercept s)" by auto
  qed
  then have "units s = 0 \<longrightarrow>
      (\<forall>(a, r, c)\<in>set (be_qfileio b). c = Some (real_of_int r * slope s + intercept s))"
    by (auto simp: in_units_def)
  with 1 E(3) show ?thesis by blast
qed

text \<open>The theorem on a run of the Kelvin sensor.\<close>

theorem cooked_value_in_sensor_units_witness:
  "sensoroneshottask sensor_k18 polls_one passes_one_edge = Blocked result_kelvin \<and>
   be_qfileio result_kelvin =
     [(0x68, 16, in_units (units sensor_k18)
                   (real_of_int 16 * slope sensor_k18 + intercept sensor_k18))] \<and>
   be_qdisplay result_kelvin = concat (map display_items (be_qfileio result_kelvin))"
  using cooked_value_in_sensor_units [OF disjI2 [OF run_kelvin]] run_kelvin
  by (simp add: result_kelvin_def sensor_k18_def sensor_c18_def in_units_def)

text \<open>
  C3 as stated fails on that run: the Sample of the Kelvin sensor has the raw value 16 and
  a cooked value that exceeds \<open>16 * slope + intercept\<close> by 273.15, on the log queue and on
  the display queue alike.
\<close>

theorem cooked_value_counterexample:
  "sensoroneshottask sensor_k18 polls_one passes_one_edge = Blocked result_kelvin \<and>
   be_qfileio result_kelvin =
     [(0x68, 16, Some (16 * slope sensor_k18 + intercept sensor_k18 + 27315 / 100))] \<and>
   be_qdisplay result_kelvin =
     [PyInt 16, PyFloat (16 * slope sensor_k18 + intercept sensor_k18 + 27315 / 100)] \<and>
   \<not> (\<forall>(a, r, c)\<in>set (be_qfileio result_kelvin).
        c = Some (real_of_int r * slope sensor_k18 + intercept sensor_k18))"
  using run_kelvin by (simp add: result_kelvin_def sensor_k18_def sensor_c18_def)

section \<open>The address of a Sample and the sentinel\<close>

lemma index_of_nth: "v \<in> set xs \<Longrightarrow> 0 \<le> index_of xs v \<and> xs ! nat (index_of xs v) = v"
  by (induction xs) (auto simp: nat_add_distrib)

lemma set_address_valid:
  assumes "0 \<le> a \<and> a < 8 \<or> a \<in> set i2caddress"
  shows "address (set_address s a) \<in> set i2caddress"
proof (cases "0 \<le> a \<and> a < int (length i2caddress)")
  case True
  then have "nat a < length i2caddress" by linarith
  then have "i2caddress ! nat a \<in> set i2caddress" by (rule nth_mem)
  with True show ?thesis by (simp add: set_address_def)
next
  case False
  then have "\<not> (0 \<le> a \<and> a < 8)" by (simp add: i2caddress_def)
  with assms have a: "a \<in> set i2caddress" by blast
  from index_of_nth [OF a] False a show ?thesis by (auto simp: set_address_def)
qed

lemma tempsensor_init_address:
  "tempsensor_init a m u = Inr s \<Longrightarrow>
     address s = address (set_address (tempsensor_class\<lparr>i2caddrind := a\<rparr>) a)"
  by (auto simp: tempsensor_init_def set_mode_def Let_def tempsensor_class_def set_address_def
      split: sum.splits prod.splits if_splits)

lemma run_c18_one:
  "sensoroneshottask (set_intercept (set_slope sensor_c18 1) 0) polls_one passes_one_edge =
     Blocked \<lparr>be_sensor = sensor_c18\<lparr>slope := 1, intercept := 0, status := 0x0c, raw := 16,
                                     cooked := 16\<rparr>,
              be_triggered = False, be_qfileio = [(0x68, 16, Some 16)],
              be_qdisplay = [PyInt 16, PyFloat 16]\<rparr>"
  by (simp add: sensoroneshottask_def polls_one_def passes_one_edge_def backend_start_def
      sensor_c18_def oneshot_body_def read_status_def mcp3421_def py_index_def
      raw3_def decode_def Let_def get_tempraw_def get_tempcooked_def get_tempC_def
      cooked_val_def set_slope_def set_intercept_def)

lemma gensetup_address_stores:
  "\<exists>i a. gensetup_address sensoraddrind delta = Inr (i, a) \<and>
           (a = - 1 \<or> a \<in> set i2caddress)"
proof -
  define j where "j = sensoraddrind + delta"
  define i where "i = (if j < - 1 then 7 else if j > 7 then - 1 else j)"
  have g: "gensetup_address sensoraddrind delta =
             (if i = - 1 then Inr (i, - 1)
              else (case py_index i2caddress i of Inl e \<Rightarrow> Inl e | Inr a \<Rightarrow> Inr (i, a)))"
    unfolding gensetup_address_def Let_def i_def j_def ..
  have r: "- 1 \<le> i" "i \<le> 7" by (simp_all add: i_def)
  show ?thesis
  proof (cases "i = - 1")
    case True
    then show ?thesis unfolding g by simp
  next
    case False
    with r have "0 \<le> i" "nat i < length i2caddress" by (simp_all add: i2caddress_def)
    then have "py_index i2caddress i = Inr (i2caddress ! nat i)"
      "i2caddress ! nat i \<in> set i2caddress"
      by (simp_all add: py_index_def)
    with False show ?thesis unfolding g by simp
  qed
qed

text \<open>
  C9. The addresses that the program configures are \<open>- 1\<close>, for which the framework
  creates no sensor, and the addresses of the table (the default configuration and the
  address field of the setup window store nothing else); the constructor also takes an
  index 0..7 of the table. When a sensor is constructed with such an index or address, and
  calibrated as the framework does, every Sample its acquisition task emits carries an
  address of the table, which is not 0, the address of the sentinel.
\<close>

theorem sample_address_in_table:
  assumes "0 \<le> a \<and> a < 8 \<or> a \<in> set i2caddress"
    and "tempsensor_init a m u = Inr s0"
    and "s = set_intercept (set_slope s0 sl) ic"
    and "sensoroneshottask s polls passes = Finished b \<or>
         sensoroneshottask s polls passes = Blocked b"
  shows "\<forall>(ad, r, c)\<in>set (be_qfileio b). ad \<in> set i2caddress \<and> ad \<noteq> 0 \<and> ad \<noteq> fst sentinel"
proof -
  from tempsensor_init_address [OF assms(2)] set_address_valid [OF assms(1)] assms(3)
  have ad: "address s \<in> set i2caddress"
    by (simp add: set_intercept_def set_slope_def)
  then have nz: "address s \<noteq> 0" by (auto simp: i2caddress_def)
  from sensoroneshottask_out [OF assms(4)] obtain E where
    E: "be_qfileio b = map (sample_of s) E" "\<forall>d\<in>set E. ready_of s d" by blast
  show ?thesis
  proof (clarify)
    fix x r c assume "(x, r, c) \<in> set (be_qfileio b)"
    with E obtain d where "d \<in> set E" "sample_of s d = (x, r, c)" by auto
    with E(2) sample_of_ready [of s d] have "x = address s" by auto
    with ad nz show "x \<in> set i2caddress \<and> x \<noteq> 0 \<and> x \<noteq> fst sentinel"
      by (simp add: sentinel_def)
  qed
qed

text \<open>The theorem on a run of \<open>tempsensor(0, 3, 0)\<close> calibrated with slope 1 and intercept 0.\<close>

theorem sample_address_in_table_witness:
  "(0 \<le> (0::int) \<and> (0::int) < 8 \<or> 0 \<in> set i2caddress) \<and>
   tempsensor_init 0 3 0 = Inr sensor_c18 \<and>
   sensoroneshottask (set_intercept (set_slope sensor_c18 1) 0) polls_one passes_one_edge =
     Blocked \<lparr>be_sensor = sensor_c18\<lparr>slope := 1, intercept := 0, status := 0x0c, raw := 16,
                                     cooked := 16\<rparr>,
              be_triggered = False, be_qfileio = [(0x68, 16, Some 16)],
              be_qdisplay = [PyInt 16, PyFloat 16]\<rparr> \<and>
   (0x68 :: int) \<in> set i2caddress \<and> (0x68 :: int) \<noteq> 0 \<and> (0x68 :: int) \<noteq> fst sentinel"
proof -
  have h1: "0 \<le> (0::int) \<and> (0::int) < 8 \<or> 0 \<in> set i2caddress" by simp
  from sample_address_in_table [OF h1 sensor_c18_init refl disjI2 [OF run_c18_one]]
    h1 sensor_c18_init run_c18_one
  show ?thesis by simp
qed

section \<open>The mode argument of the constructor\<close>

lemma set_mode_fresh:
  "mode (set_mode (set_address (tempsensor_class\<lparr>i2caddrind := a\<rparr>) a) m) = m"
  by (simp add: set_mode_def set_address_def tempsensor_class_def mcp3421_def)

lemma tempsensor_init_unfold:
  "tempsensor_init a m u =
     (case py_index mcp3421 m of
        Inl e \<Rightarrow> Inl e
      | Inr (bits, rate, msk, cfg) \<Rightarrow>
          (case py_index slope_intercept m of
             Inl e \<Rightarrow> Inl e
           | Inr (sl, ic) \<Rightarrow>
               Inr (set_mode (set_address (tempsensor_class\<lparr>i2caddrind := a\<rparr>) a) m
                      \<lparr>cfgbyte := cfg, status := cfg, slope := sl, intercept := ic,
                       units := (if u < 0 then 0 else if u > 2 then 2 else u),
                       raw := 0, cooked := 0\<rparr>)))"
  by (simp add: tempsensor_init_def Let_def set_mode_fresh)

lemma init_minus_one: "tempsensor_init 0 (- 1) 0 = Inr (sensor_c18\<lparr>mode := - 1\<rparr>)"
  by (simp add: tempsensor_init_def tempsensor_class_def set_address_def set_mode_def
      i2caddress_def mcp3421_def slope_intercept_def py_index_def sensor_c18_def)

text \<open>
  C10, as amended. Constructing a tempsensor with a mode argument outside 0..3 does not clamp
  it: \<open>set_mode\<close> tests the attribute (the class default 3), so the argument is stored
  unchanged. The table lookup that follows raises IndexError for a mode of 4 or more and
  for a mode below -4; for a mode from -4 to -1 it wraps to entry \<open>mode + 4\<close> of the mode
  table and of the slope table, and the object keeps the negative mode.
\<close>

theorem init_mode_not_clamped:
  assumes "m < 0 \<or> 3 < m"
  shows "mode (set_mode (set_address (tempsensor_class\<lparr>i2caddrind := a\<rparr>) a) m) = m \<and>
         (4 \<le> m \<or> m < - 4 \<longrightarrow> tempsensor_init a m u = Inl IndexError) \<and>
         (- 4 \<le> m \<and> m < 0 \<longrightarrow>
            (\<exists>s. tempsensor_init a m u = Inr s \<and> mode s = m \<and>
                 cfgbyte s = snd (snd (snd (mcp3421 ! nat (m + 4)))) \<and>
                 (slope s, intercept s) = slope_intercept ! nat (m + 4)))"
proof (intro conjI impI)
  show "mode (set_mode (set_address (tempsensor_class\<lparr>i2caddrind := a\<rparr>) a) m) = m"
    by (rule set_mode_fresh)
next
  assume "4 \<le> m \<or> m < - 4"
  then have "py_index mcp3421 m = Inl IndexError"
    by (auto simp: py_index_def mcp3421_def)
  then show "tempsensor_init a m u = Inl IndexError"
    by (simp add: tempsensor_init_unfold)
next
  assume "- 4 \<le> m \<and> m < 0"
  then have "m = - 4 \<or> m = - 3 \<or> m = - 2 \<or> m = - 1" by linarith
  then show "\<exists>s. tempsensor_init a m u = Inr s \<and> mode s = m \<and>
                 cfgbyte s = snd (snd (snd (mcp3421 ! nat (m + 4)))) \<and>
                 (slope s, intercept s) = slope_intercept ! nat (m + 4)"
    by (elim disjE)
       (simp_all add: tempsensor_init_unfold py_index_def mcp3421_def slope_intercept_def
          set_mode_fresh)
qed

text \<open>The theorem at the modes 4 (the lookup raises) and -1 (the lookup wraps to entry 3).\<close>

theorem init_mode_not_clamped_witness:
  "((4::int) < 0 \<or> 3 < (4::int)) \<and>
   mode (set_mode (set_address (tempsensor_class\<lparr>i2caddrind := 0\<rparr>) 0) 4) = 4 \<and>
   tempsensor_init 0 4 0 = Inl IndexError \<and>
   ((- 1::int) < 0 \<or> 3 < (- 1::int)) \<and>
   mode (set_mode (set_address (tempsensor_class\<lparr>i2caddrind := 0\<rparr>) 0) (- 1)) = - 1 \<and>
   tempsensor_init 0 (- 1) 0 = Inr (sensor_c18\<lparr>mode := - 1\<rparr>)"
proof -
  have h4: "(4::int) < 0 \<or> 3 < (4::int)" by simp
  have h1: "(- 1::int) < 0 \<or> 3 < (- 1::int)" by simp
  from init_mode_not_clamped [OF h4, of 0 0] init_mode_not_clamped [OF h1, of 0 0]
    init_minus_one
  show ?thesis by simp
qed

text \<open>
  C10 as stated fails at the negative mode -5: the lookup does not wrap to another mode
  but raises IndexError, as it does for 4.
\<close>

theorem init_mode_counterexample:
  "tempsensor_init 0 (- 5) 0 = Inl IndexError \<and>
   py_index mcp3421 (- 5) = Inl IndexError \<and>
   mode (set_mode (set_address (tempsensor_class\<lparr>i2caddrind := 0\<rparr>) 0) (- 5)) = - 5"
  by (simp add: tempsensor_init_unfold py_index_def mcp3421_def set_mode_fresh)

section \<open>The sentinel test of the log writer\<close>

text \<open>
  C2. A pass of the log writer that has taken a time stamp \<open>t\<close> and one tuple from every
  sensor queue, the first of them \<open>(a, r, c)\<close>, on a file positioned at its end: when
  \<open>a = 0\<close> the pass ends with the file as it was, the time stamp and the tuples gone from
  the queues; when \<open>a \<noteq> 0\<close> it ends with the row appended to the file. A row is never
  empty, so the file changes if and only if \<open>a \<noteq> 0\<close>. (A cooked value \<open>None\<close> cannot be
  formatted; the tuples are taken with numbers in them.)
\<close>

theorem row_written_iff_first_address_nonzero:
  assumes tk: "take_row (lg_tsq st) (lg_qs st) = Some (t, (a, r, c) # vs, tsq', qs')"
    and cooked: "list_all (\<lambda>d. snd (snd d) \<noteq> None) ((a, r, c) # vs)"
    and pos: "fpos (lg_file st) = length (content (lg_file st))"
  shows "logwriter_row localtime st =
           Finished (st\<lparr>lg_tsq := tsq', lg_qs := qs',
                       lg_file :=
                         (if a = 0 then lg_file st
                          else \<lparr>content = content (lg_file st) @ row_text localtime t ((a, r, c) # vs),
                                fpos = length (content (lg_file st)) +
                                       length (row_text localtime t ((a, r, c) # vs))\<rparr>)\<rparr>) \<and>
         row_text localtime t ((a, r, c) # vs) \<noteq> []"
  using tk write_row_result [OF cooked pos, of localtime t]
  by (simp add: logwriter_row_def py_index_def row_text_nonempty)

text \<open>
  The theorem at two log writers with two sensor queues and an empty file: the first
  tuple of the one has the address \<open>0x68\<close> and the row is written, the first tuple of the
  other is the sentinel and the file stays empty.
\<close>

theorem row_written_iff_first_address_nonzero_witness:
  "logwriter_row gmtime logger_two =
     Finished \<lparr>lg_file =
                 \<lparr>content = ''1970/01/01 00:00:05.000,,0x68,   0x10, 70.500,,0x69,   -0x1,  0.000''
                              @ newline,
                  fpos = 68\<rparr>,
               lg_endstamp = 0, lg_msg = ''r'', lg_tsq = [], lg_qs = [[], []]\<rparr> \<and>
   logwriter_row gmtime logger_sentinel =
     Finished \<lparr>lg_file = fopen, lg_endstamp = 0, lg_msg = ''r'', lg_tsq = [], lg_qs = [[], []]\<rparr>"
proof -
  have c: "list_all (\<lambda>d. snd (snd d) \<noteq> None) ((0x68, 16, Some (141 / 2)) # [(0x69, - 1, Some 0)])"
    "list_all (\<lambda>d. snd (snd d) \<noteq> None) ((0, 0, Some 0) # [(0x69, - 1, Some (0::real))])"
    by simp_all
  have p: "fpos (lg_file logger_two) = length (content (lg_file logger_two))"
    "fpos (lg_file logger_sentinel) = length (content (lg_file logger_sentinel))"
    by (simp_all add: logger_two_def logger_sentinel_def fopen_def)
  from row_written_iff_first_address_nonzero [OF take_row_two c(1) p(1), of gmtime]
  have a: "logwriter_row gmtime logger_two =
     Finished \<lparr>lg_file =
                 \<lparr>content = ''1970/01/01 00:00:05.000,,0x68,   0x10, 70.500,,0x69,   -0x1,  0.000''
                              @ newline,
                  fpos = 68\<rparr>,
               lg_endstamp = 0, lg_msg = ''r'', lg_tsq = [], lg_qs = [[], []]\<rparr>"
    by (simp add: row_two) (simp add: logger_two_def fopen_def newline_def)
  from row_written_iff_first_address_nonzero [OF take_row_sentinel c(2) p(2), of gmtime]
  have b: "logwriter_row gmtime logger_sentinel =
     Finished \<lparr>lg_file = fopen, lg_endstamp = 0, lg_msg = ''r'', lg_tsq = [], lg_qs = [[], []]\<rparr>"
    by (simp add: logger_sentinel_def)
  from a b show ?thesis by blast
qed

section \<open>The form of a row\<close>

text \<open>
  C7, as amended. A pass of the log writer that changes the file, on a file positioned at
  its end, appends one row: the time stamp with its milliseconds, then for every sensor
  queue in order two commas and the address, the raw value and the cooked value of the
  tuple at its head, these three separated by single commas, then the line end with no
  separator before it. The first address of such a row is not 0. So a field is separated
  from the next by one comma inside a sensor's group and by two commas before every
  group, the first included.
\<close>

theorem row_format:
  assumes run: "logwriter_row localtime st = Finished st'"
    and changed: "lg_file st' \<noteq> lg_file st"
    and pos: "fpos (lg_file st) = length (content (lg_file st))"
  shows "content (lg_file st') =
           content (lg_file st) @ stamp localtime (hd (lg_tsq st)) @
           concat (map (\<lambda>d. '',,'' @ sample_fields d) (map hd (lg_qs st))) @ newline \<and>
         fpos (lg_file st') = length (content (lg_file st')) \<and>
         fst (hd (map hd (lg_qs st))) \<noteq> 0"
proof -
  from run obtain t vs tsq' qs' where tk: "take_row (lg_tsq st) (lg_qs st) = Some (t, vs, tsq', qs')"
    by (auto simp: logwriter_row_def split: option.splits)
  note ts = take_row_Some [OF tk]
  from run tk obtain a r c where i: "py_index vs 0 = Inr (a, r, c)"
    by (auto simp: logwriter_row_def Let_def split: sum.splits prod.splits)
  then have hd: "hd vs = (a, r, c)"
    by (cases vs) (auto simp: py_index_def split: if_splits)
  have a: "a \<noteq> 0"
  proof
    assume "a = 0"
    with run tk i have "st' = st\<lparr>lg_tsq := tsq', lg_qs := qs'\<rparr>"
      by (simp add: logwriter_row_def Let_def)
    with changed show False by simp
  qed
  with run tk i obtain f where w: "write_row localtime (lg_file st) t vs = Inr f"
    and st': "st' = st\<lparr>lg_tsq := tsq', lg_qs := qs', lg_file := f\<rparr>"
    by (auto simp: logwriter_row_def Let_def split: sum.splits)
  from write_row_at_end [OF w pos] have "content f = content (lg_file st) @ row_text localtime t vs"
    "fpos f = length (content f)" by simp_all
  moreover have "t = hd (lg_tsq st)" using ts(1) by simp
  ultimately show ?thesis using a hd ts(2) st' by (simp add: row_text_def)
qed

text \<open>
  The theorem at a log writer with the time stamp 5 and two sensor queues, on a host whose
  zone is UTC.
\<close>

theorem row_format_witness:
  "content (lg_file \<lparr>lg_file =
                 \<lparr>content = ''1970/01/01 00:00:05.000,,0x68,   0x10, 70.500,,0x69,   -0x1,  0.000''
                              @ newline,
                  fpos = 68\<rparr>,
               lg_endstamp = 0, lg_msg = ''r'', lg_tsq = [], lg_qs = [[], []]\<rparr>) =
     content (lg_file logger_two) @ stamp gmtime (hd (lg_tsq logger_two)) @
     concat (map (\<lambda>d. '',,'' @ sample_fields d) (map hd (lg_qs logger_two))) @ newline \<and>
   stamp gmtime (hd (lg_tsq logger_two)) = ''1970/01/01 00:00:05.000'' \<and>
   map sample_fields (map hd (lg_qs logger_two)) = [''0x68,   0x10, 70.500'', ''0x69,   -0x1,  0.000'']"
proof -
  have p: "fpos (lg_file logger_two) = length (content (lg_file logger_two))"
    by (simp add: logger_two_def fopen_def)
  have c: "lg_file \<lparr>lg_file =
                 \<lparr>content = ''1970/01/01 00:00:05.000,,0x68,   0x10, 70.500,,0x69,   -0x1,  0.000''
                              @ newline,
                  fpos = 68\<rparr>,
               lg_endstamp = 0, lg_msg = ''r'', lg_tsq = [], lg_qs = [[], []]\<rparr> \<noteq> lg_file logger_two"
    by (simp add: logger_two_def fopen_def)
  from row_format [OF run_logger_two c p]
  show ?thesis by (simp add: logger_two_def stamp_5 fields_a fields_b)
qed

text \<open>
  C7 as stated fails there: the row that the pass writes has two commas after the time
  stamp and two between the sensors, and differs from the row with single commas.
\<close>

theorem row_format_counterexample:
  "logwriter_row gmtime logger_two =
     Finished \<lparr>lg_file =
                 \<lparr>content = ''1970/01/01 00:00:05.000,,0x68,   0x10, 70.500,,0x69,   -0x1,  0.000''
                              @ newline,
                  fpos = 68\<rparr>,
               lg_endstamp = 0, lg_msg = ''r'', lg_tsq = [], lg_qs = [[], []]\<rparr> \<and>
   row_single_commas gmtime 5 [(0x68, 16, Some (141 / 2)), (0x69, - 1, Some 0)] =
     ''1970/01/01 00:00:05.000,0x68,   0x10, 70.500,0x69,   -0x1,  0.000'' @ newline \<and>
   ''1970/01/01 00:00:05.000,,0x68,   0x10, 70.500,,0x69,   -0x1,  0.000'' @ newline \<noteq>
   row_single_commas gmtime 5 [(0x68, 16, Some (141 / 2)), (0x69, - 1, Some 0)]"
  using run_logger_two row_two_single by simp

section \<open>The end time of the log\<close>

text \<open>
  When every character of the file name is one byte, \<open>endstamp\<close> is the byte offset of
  the placeholder line: at the end of the loop the file is the two lines \<open>Filename:\<close> and
  \<open>Start time:\<close>, the placeholder \<open>dnE time:\<close>, the line of the sample period and the rows
  written, and the task ends with the same file in which the 34 bytes of the placeholder
  text are replaced by \<open>End time:\<close> and the time of the end. The times are of the years
  1000 to 9999, where \<open>time.asctime\<close> has 24 characters.
\<close>

lemma end_time_overwritten_when_name_ascii:
  assumes name: "utf8 (lh_log h) = Inr name" and ascii: "length name = length (lh_log h)"
    and loop: "logwriter_loop localtime (opened name h tsq qs) mboxes = Finished st"
    and dne: "valid_tm (lh_dne h)" and en: "valid_tm (lh_end h)"
  shows "\<exists>rows.
           content (lg_file st) = log_text name h (''dnE time: '' @ asctime (lh_dne h)) rows \<and>
           logwriter h localtime tsq qs mboxes =
             Finished (st\<lparr>lg_file :=
                          \<lparr>content = log_text name h (''End time: '' @ asctime (lh_end h)) rows,
                           fpos = nat (lg_endstamp st) + 34\<rparr>\<rparr>)"
proof -
  define A where "A = (''Filename: '' @ name @ newline) @
                      (''Start time: '' @ asctime (lh_start h) @ newline)"
  define old where "old = ''dnE time: '' @ asctime (lh_dne h)"
  define new where "new = ''End time: '' @ asctime (lh_end h)"
  define B where "B = newline @ (''Sample period: '' @ lh_period h @ '' seconds.'' @ newline)"
  have lt: "\<And>e rows. log_text name h e rows = A @ e @ B @ rows"
    by (simp add: log_text_def A_def B_def)
  have len: "length old = 34" "length new = 34"
    by (simp_all add: old_def new_def asctime_length [OF dne] asctime_length [OF en])
  have op: "lg_file (opened name h tsq qs) = \<lparr>content = A @ old @ B, fpos = length (A @ old @ B)\<rparr>"
    "lg_endstamp (opened name h tsq qs) = int (length A)"
    by (simp_all add: opened_def lt old_def A_def ascii)
  from logwriter_loop_inv [OF loop opened_at_end] obtain rows where
    es: "lg_endstamp st = int (length A)"
    and c: "content (lg_file st) = A @ old @ B @ rows"
    by (auto simp: op)
  have f: "lg_file st\<lparr>fpos := length A\<rparr> = \<lparr>content = A @ old @ (B @ rows), fpos = length A\<rparr>"
    using c by simp
  have len': "length old = length new" by (simp add: len)
  have cl: "logwriter_close h st =
              Inr (st\<lparr>lg_file := \<lparr>content = A @ new @ B @ rows, fpos = length A + 34\<rparr>\<rparr>)"
  proof -
    have sk: "fseek (lg_file st) (lg_endstamp st) =
                Inr \<lparr>content = A @ old @ (B @ rows), fpos = length A\<rparr>"
      by (simp add: fseek_def es f)
    show ?thesis
      unfolding logwriter_close_def sk new_def [symmetric]
      by (simp add: overwrite_line [OF len'] len)
  qed
  have "content (lg_file st) = log_text name h old rows" by (simp add: lt c)
  moreover have "logwriter h localtime tsq qs mboxes =
             Finished (st\<lparr>lg_file := \<lparr>content = log_text name h new rows,
                                         fpos = nat (lg_endstamp st) + 34\<rparr>\<rparr>)"
    by (simp add: logwriter_def logwriter_open_eq [OF name] loop cl lt es)
  ultimately show ?thesis unfolding old_def new_def by blast
qed

text \<open>
  C8 fails on the code when the name of the log has a character of more than one byte.
  On the host whose log directory lies under \<open>/home/jos\<close> and \<open>0xE9\<close>, \<open>endstamp\<close> is 89, the
  number of characters of the first two lines, which are 90 bytes long; the end time is
  written from byte 89 on, over the line end of the \<open>Start time:\<close> line, and the last byte
  of the placeholder stays. On the host with the ASCII name the same run leaves the end
  time in the place of the placeholder.
\<close>

theorem end_time_lands_early:
  "logwriter host_b gmtime [5] [[(0x68, 16, Some (141 / 2))], [(0x69, - 1, Some 0)]] [Some ''q''] =
     Finished \<lparr>lg_file = \<lparr>content = log_b_closed, fpos = 123\<rparr>, lg_endstamp = 89,
               lg_msg = ''q'', lg_tsq = [], lg_qs = [[], []]\<rparr> \<and>
   length (''Filename: '' @ name_b @ newline @ ''Start time: Thu Jan  1 00:00:05 1970'' @ newline)
     = 90 \<and>
   log_b_closed \<noteq> log_b_intended \<and>
   logwriter host_a gmtime [5] [[(0x68, 16, Some (141 / 2))], [(0x69, - 1, Some 0)]] [Some ''q''] =
     Finished \<lparr>lg_file = \<lparr>content = log_a_closed, fpos = 106\<rparr>, lg_endstamp = 72,
               lg_msg = ''q'', lg_tsq = [], lg_qs = [[], []]\<rparr>"
proof -
  have b: "logwriter host_b gmtime [5] [[(0x68, 16, Some (141 / 2))], [(0x69, - 1, Some 0)]]
             [Some ''q''] =
     Finished \<lparr>lg_file = \<lparr>content = log_b_closed, fpos = 123\<rparr>, lg_endstamp = 89,
               lg_msg = ''q'', lg_tsq = [], lg_qs = [[], []]\<rparr>"
    unfolding logwriter_def logwriter_open_eq [OF utf8_host_b] sum.case loop_host_b_quit
      outcome.case close_host_b ..
  have a: "logwriter host_a gmtime [5] [[(0x68, 16, Some (141 / 2))], [(0x69, - 1, Some 0)]]
             [Some ''q''] =
     Finished \<lparr>lg_file = \<lparr>content = log_a_closed, fpos = 106\<rparr>, lg_endstamp = 72,
               lg_msg = ''q'', lg_tsq = [], lg_qs = [[], []]\<rparr>"
    unfolding logwriter_def logwriter_open_eq [OF utf8_host_a] sum.case loop_host_a_quit
      outcome.case close_host_a ..
  have l: "length (''Filename: '' @ name_b @ newline @
                   ''Start time: Thu Jan  1 00:00:05 1970'' @ newline) = 90"
    by (simp add: name_b_def newline_def)
  have n: "log_b_closed \<noteq> log_b_intended"
    by (simp add: log_b_closed_def log_b_intended_def newline_def)
  from a b l n show ?thesis by blast
qed

section \<open>The order of teardown\<close>

text \<open>
  C5, as amended. When some pass of the wait loop finds every sensor log queue and the
  time stamp queue empty, teardown returns, and what it does is, in this order: it puts
  \<open>'q'\<close> in the mailbox of the log writer; it tests the queues for emptiness, pass after
  pass, the last pass finding all of them empty; it puts one sentinel tuple on every
  sensor log queue and one time stamp on the time stamp queue; it joins the log writer;
  and in what follows it puts nothing more in the mailbox of the log writer. So the quit
  message is placed before the wait and the sentinels, which both come before the join.
\<close>

theorem quit_first_then_wait_then_sentinels:
  assumes "list_ex (\<lambda>nonempty. list_all (\<lambda>i. i \<notin> set nonempty) [0..<Suc n]) obs"
  shows "\<exists>w0 rest.
           endsensorframework n obs now =
             Finished (PutMsg (n * 2) ''q'' #
                       (w0 @ map (\<lambda>i. CheckEmpty i True) [0..<Suc n]) @
                       map (\<lambda>i. PutLog i sentinel) [0..<n] @
                       PutTime n now # Join LogWriter # rest) \<and>
           list_all is_check w0 \<and> PutMsg (n * 2) ''q'' \<notin> set rest"
proof -
  from wait_allempty_total [OF assms] obtain w where w: "wait_allempty n obs = (w, True)" by blast
  from wait_allempty_ended [OF w] obtain w0 where
    c: "list_all is_check w" and e: "w = w0 @ map (\<lambda>i. CheckEmpty i True) [0..<Suc n]" by blast
  define rest where "rest =
                map (\<lambda>q. PutMsg q ''q'') [n..<n * 2] @
                concat (map (\<lambda>q. [PutDisplay q (PyInt 0), PutDisplay q (PyInt 0)]) [0..<n]) @
                map (\<lambda>i. Join (DisplayTask i)) [0..<n] @
                map (\<lambda>q. PutMsg q ''q'') [0..<n] @
                map (\<lambda>i. Join (AcquisitionTask i)) [0..<n] @
                [PutMsg (n * 2 + 1) ''q'', Join TriggerTask, DelQueues]"
  have "endsensorframework n obs now =
          Finished (PutMsg (n * 2) ''q'' # w @ map (\<lambda>i. PutLog i sentinel) [0..<n] @
                    PutTime n now # Join LogWriter # rest)"
    by (simp add: endsensorframework_def w rest_def Let_def)
  moreover have "PutMsg (n * 2) ''q'' \<notin> set rest"
    by (auto simp: rest_def)
  moreover from c e have "list_all is_check w0" by simp
  ultimately show ?thesis using e by blast
qed

text \<open>The theorem at one sensor, with a wait loop of two passes.\<close>

theorem quit_first_then_wait_then_sentinels_witness:
  "list_ex (\<lambda>nonempty. list_all (\<lambda>i. i \<notin> set nonempty) [0..<Suc 1]) [[0], []] \<and>
   (\<exists>w0 rest.
      endsensorframework 1 [[0], []] 7 =
        Finished (PutMsg (1 * 2) ''q'' #
                  (w0 @ map (\<lambda>i. CheckEmpty i True) [0..<Suc 1]) @
                  map (\<lambda>i. PutLog i sentinel) [0..<1] @
                  PutTime 1 7 # Join LogWriter # rest) \<and>
      list_all is_check w0 \<and> PutMsg (1 * 2) ''q'' \<notin> set rest)"
proof -
  have h: "list_ex (\<lambda>nonempty. list_all (\<lambda>i. i \<notin> set nonempty) [0..<Suc 1]) [[0], []]"
    by simp
  from quit_first_then_wait_then_sentinels [OF h, of 7] h show ?thesis by blast
qed

text \<open>
  C5 as stated fails there: no test of a queue and no put of a sentinel or of the time
  stamp comes before \<open>'q'\<close> is put in the mailbox of the log writer, which is mailbox 2;
  that put is the first action.
\<close>

theorem quit_first_counterexample:
  "endsensorframework 1 [[0], []] 7 = Finished trace_one \<and>
   \<not> precedes (CheckEmpty 0 True) (PutMsg 2 ''q'') trace_one \<and>
   \<not> precedes (CheckEmpty 1 True) (PutMsg 2 ''q'') trace_one \<and>
   \<not> precedes (PutLog 0 sentinel) (PutMsg 2 ''q'') trace_one \<and>
   \<not> precedes (PutTime 1 7) (PutMsg 2 ''q'') trace_one \<and>
   precedes (PutMsg 2 ''q'') (CheckEmpty 0 False) trace_one \<and>
   precedes (PutMsg 2 ''q'') (PutLog 0 sentinel) trace_one"
  using teardown_one by (simp add: precedes_def trace_one_def sentinel_def)

section \<open>The control state in which a task starts\<close>





end
